theory Spec2Isabelle
  imports Complex_Main
begin

section \<open>JavaScript strings and sets\<close>

text \<open>
  A JavaScript string is a sequence of UTF-16 code units. It is modelled as a
  \<open>string\<close> whose characters are the code units below 256 (ISO 8859-1), which covers
  what the English OCR engine and the model's error messages produce; \<open>length\<close> counts
  code units, as \<open>.length\<close> does.
\<close>

definition isWhiteSpace :: "char \<Rightarrow> bool" where
  \<comment> \<open>the regular expression class \<open>\s\<close>, also what \<open>trim\<close> strips\<close>
  "isWhiteSpace c = (of_char c \<in> {9::nat, 10, 11, 12, 13, 32, 160})"

definition isDigit :: "char \<Rightarrow> bool" where
  \<comment> \<open>the class \<open>\d\<close>\<close>
  "isDigit c = (let n = (of_char c :: nat) in 48 \<le> n \<and> n \<le> 57)"

definition isAsciiLetter :: "char \<Rightarrow> bool" where
  \<comment> \<open>the class \<open>[a-zA-Z]\<close>\<close>
  "isAsciiLetter c =
     (let n = (of_char c :: nat) in (65 \<le> n \<and> n \<le> 90) \<or> (97 \<le> n \<and> n \<le> 122))"

definition isWordChar :: "char \<Rightarrow> bool" where
  \<comment> \<open>the class \<open>\w\<close>, that is \<open>[A-Za-z0-9_]\<close>\<close>
  "isWordChar c = (isAsciiLetter c \<or> isDigit c \<or> c = CHR ''_'')"

definition isUpperChar :: "char \<Rightarrow> bool" where
  "isUpperChar c =
     (let n = (of_char c :: nat)
      in (65 \<le> n \<and> n \<le> 90) \<or> (192 \<le> n \<and> n \<le> 222 \<and> n \<noteq> 215))"

definition toLowerChar :: "char \<Rightarrow> char" where
  "toLowerChar c = (if isUpperChar c then char_of (of_char c + (32::nat)) else c)"

definition toLowerCase :: "string \<Rightarrow> string" where
  "toLowerCase s = map toLowerChar s"

definition trim :: "string \<Rightarrow> string" where
  "trim s = rev (dropWhile isWhiteSpace (rev (dropWhile isWhiteSpace s)))"

text \<open>
  \<open>s.split(/\s+/)\<close>: the pieces between maximal runs of white space. A run at the start or
  at the end of the string leaves an empty piece there, and the empty string splits into
  one empty piece.
\<close>

function js_split :: "string \<Rightarrow> string list" where
  "js_split [] = [[]]"
| "js_split (c # cs) =
     (if isWhiteSpace c then [] # js_split (dropWhile isWhiteSpace cs)
      else (case js_split cs of [] \<Rightarrow> [[c]] | w # ws \<Rightarrow> (c # w) # ws))"
  by pat_completeness auto
termination
  by (relation "measure length") (auto simp: less_Suc_eq_le length_dropWhile_le)

fun startsWith :: "string \<Rightarrow> string \<Rightarrow> bool" where
  "startsWith s [] = True"
| "startsWith [] (p # ps) = False"
| "startsWith (c # cs) (p # ps) = (c = p \<and> startsWith cs ps)"

fun js_includes :: "string \<Rightarrow> string \<Rightarrow> bool" where
  "js_includes [] sub = (sub = [])"
| "js_includes (c # cs) sub = (startsWith (c # cs) sub \<or> js_includes cs sub)"

definition endsWith :: "string \<Rightarrow> string \<Rightarrow> bool" where
  "endsWith s suffix = startsWith (rev s) (rev suffix)"

text \<open>
  \<open>new Set(xs)\<close> inserts the elements in order and ignores one that is already there;
  \<open>.size\<close> is the length of the resulting list and \<open>.has\<close> is membership.
\<close>

definition setAdd :: "'a list \<Rightarrow> 'a \<Rightarrow> 'a list" where
  "setAdd s x = (if x \<in> set s then s else s @ [x])"

definition mkSet :: "'a list \<Rightarrow> 'a list" where
  "mkSet xs = foldl setAdd [] xs"

definition has :: "'a list \<Rightarrow> 'a \<Rightarrow> bool" where
  "has s x = (x \<in> set s)"

section \<open>JavaScript numbers\<close>

text \<open>
  A JavaScript number is an IEEE 754 binary64 value: a finite number, one of the two
  infinities, or NaN. A finite number is given by the real it denotes; the sign of a zero
  is not kept, which no operation of this program can observe (it divides by 100 and by
  the size of a non-empty set only).
\<close>

datatype number = Finite real | PosInfinity | NegInfinity | NotANumber

text \<open>
  Every arithmetic operation yields the exact result rounded to the nearest binary64
  number, a tie going to the even significand. A positive real is brought to the form
  \<open>m * 2 ^ e\<close> with \<open>2 ^ 52 \<le> m < 2 ^ 53\<close>, where \<open>e\<close> stays within the exponents of the format
  (\<open>- 1074\<close> for the subnormal numbers, up to \<open>971\<close>), and \<open>m\<close> is rounded to an integer; a
  result of \<open>2 ^ 1024\<close> or more overflows to an infinity.
\<close>

definition roundHalfEven :: "real \<Rightarrow> int" where
  "roundHalfEven x =
     (let n = \<lfloor>x\<rfloor>; r = x - of_int n
      in if r < 1 / 2 then n else if 1 / 2 < r then n + 1
         else if even n then n else n + 1)"

function scaleDown :: "real \<Rightarrow> int \<Rightarrow> real \<times> int" where
  "scaleDown m e = (if 2 ^ 53 \<le> m \<and> e < 971 then scaleDown (m / 2) (e + 1) else (m, e))"
  by pat_completeness auto
termination
  by (relation "measure (\<lambda>(m, e). nat (971 - e))") auto

function scaleUp :: "real \<Rightarrow> int \<Rightarrow> real \<times> int" where
  "scaleUp m e = (if m < 2 ^ 52 \<and> - 1074 < e then scaleUp (2 * m) (e - 1) else (m, e))"
  by pat_completeness auto
termination
  by (relation "measure (\<lambda>(m, e). nat (e + 1074))") auto

definition pow2 :: "int \<Rightarrow> real" where
  "pow2 e = (if 0 \<le> e then 2 ^ nat e else 1 / 2 ^ nat (- e))"

definition roundMagnitude :: "real \<Rightarrow> real" where
  "roundMagnitude x =
     (let (m1, e1) = scaleDown x 0;
          (m, e) = scaleUp m1 e1
      in of_int (roundHalfEven m) * pow2 e)"

definition fl :: "real \<Rightarrow> number" where
  \<comment> \<open>the binary64 number nearest to a real; also the number a decimal literal denotes\<close>
  "fl x =
     (if x = 0 then Finite 0
      else let y = roundMagnitude \<bar>x\<bar>
           in if y < 2 ^ 1024 then Finite (if x < 0 then - y else y)
              else if x < 0 then NegInfinity else PosInfinity)"

text \<open>The operators \<open>+\<close>, \<open>*\<close>, \<open>/\<close> and \<open><\<close> on numbers.\<close>

fun numPlus :: "number \<Rightarrow> number \<Rightarrow> number" where
  "numPlus (Finite x) (Finite y) = fl (x + y)"
| "numPlus NotANumber b = NotANumber"
| "numPlus a NotANumber = NotANumber"
| "numPlus PosInfinity NegInfinity = NotANumber"
| "numPlus NegInfinity PosInfinity = NotANumber"
| "numPlus PosInfinity b = PosInfinity"
| "numPlus a PosInfinity = PosInfinity"
| "numPlus NegInfinity b = NegInfinity"
| "numPlus a NegInfinity = NegInfinity"

fun numTimes :: "number \<Rightarrow> number \<Rightarrow> number" where
  "numTimes (Finite x) (Finite y) = fl (x * y)"
| "numTimes NotANumber b = NotANumber"
| "numTimes a NotANumber = NotANumber"
| "numTimes (Finite x) b =
     (if x = 0 then NotANumber
      else if (0 < x) = (b = PosInfinity) then PosInfinity else NegInfinity)"
| "numTimes a (Finite y) =
     (if y = 0 then NotANumber
      else if (0 < y) = (a = PosInfinity) then PosInfinity else NegInfinity)"
| "numTimes a b = (if a = b then PosInfinity else NegInfinity)"

fun numDivide :: "number \<Rightarrow> number \<Rightarrow> number" where
  "numDivide (Finite x) (Finite y) =
     (if y = 0
      then (if x = 0 then NotANumber else if 0 < x then PosInfinity else NegInfinity)
      else fl (x / y))"
| "numDivide NotANumber b = NotANumber"
| "numDivide a NotANumber = NotANumber"
| "numDivide (Finite x) b = Finite 0"
| "numDivide a (Finite y) =
     (if (0 \<le> y) = (a = PosInfinity) then PosInfinity else NegInfinity)"
| "numDivide a b = NotANumber"

fun numLess :: "number \<Rightarrow> number \<Rightarrow> bool" where
  "numLess (Finite x) (Finite y) = (x < y)"
| "numLess NotANumber b = False"
| "numLess a NotANumber = False"
| "numLess a NegInfinity = False"
| "numLess NegInfinity b = True"
| "numLess PosInfinity b = False"
| "numLess a PosInfinity = True"

text \<open>
  Numbers that the program only stores, compares or logs (confidence scores, box
  coordinates) are given as the reals they denote. So is the quotient of two sizes: the
  number the program holds is that quotient rounded once, \<open>fl\<close> of it. In \<open>isTextSubset\<close>
  the quotient is compared with 0.8 as a real; the rounded quotient exceeds the number
  0.8 exactly when the quotient exceeds \<open>4 / 5\<close>, as long as the child has fewer than
  \<open>2 ^ 50\<close> words, which is beyond the length of a string. The gate of the scheduling loop
  compares a rounded quotient with a threshold that was itself computed by three rounded
  operations; there the rounding decides and is kept.
\<close>

section \<open>ocrService: the local text comparison\<close>

definition calculateTextSimilarity :: "string \<Rightarrow> string \<Rightarrow> real" where
  "calculateTextSimilarity text1 text2 =
     (if text1 = [] \<or> text2 = [] then 0
      else
        let set1 = mkSet (js_split (toLowerCase text1));
            set2 = mkSet (js_split (toLowerCase text2));
            intersection = mkSet (filter (has set2) set1);
            union = mkSet (set1 @ set2)
        in real (length intersection) / real (length union))"

definition clean :: "string \<Rightarrow> string list" where
  "clean t =
     filter (\<lambda>w. length w > 2)
       (js_split (filter (\<lambda>c. isWordChar c \<or> isWhiteSpace c) (toLowerCase t)))"

definition isTextSubset :: "string \<Rightarrow> string \<Rightarrow> bool" where
  "isTextSubset parentText childText =
     (if parentText = [] \<or> childText = [] then False
      else
        let parentWords = mkSet (clean parentText);
            childWords = clean childText
        in if length childWords = 0 then True
           else
             let matchCount = length (filter (has parentWords) childWords)
             in real matchCount / real (length childWords) > 0.8)"

text \<open>
  The Jaccard index as the specification words it, on mathematical sets: the size of the
  intersection over the size of the union of the two token sets.
\<close>

definition tokenSet :: "string \<Rightarrow> string set" where
  "tokenSet a = set (js_split (toLowerCase a))"


section \<open>The data model\<close>

record BoundingBox =
  ymin :: real
  xmin :: real
  ymax :: real
  xmax :: real

record QuestionOption =
  opt_text :: string
  isCorrect :: bool
  confidenceScore :: real
  opt_boundingBox :: "BoundingBox option"

record QuestionData =
  q_type :: "string option"
  q_questionText :: "string option"
  q_options :: "QuestionOption list"
  q_reasoning :: "string option"
  q_suggestedAction :: "string option"
  q_boundingBox :: "BoundingBox option"

text \<open>
  An optional field is an \<open>option\<close>; \<open>nextButton\<close> is read by the controller although the
  interface does not declare it.
\<close>

record AnalysisResult =
  hasQuestion :: bool
  questions :: "QuestionData list"
  questionText :: "string option"
  options :: "QuestionOption list option"
  reasoning :: "string option"
  suggestedAction :: "string option"
  boundingBox :: "BoundingBox option"
  nextButton :: "BoundingBox option"
  error :: "string option"
  modelUsed :: "string option"
  attempts :: "nat option"

datatype contextType = Link | Image | Pdf | Video | PlainText

record ExternalContext =
  ctx_id :: string
  ctx_type :: contextType
  ctx_value :: string
  ctx_name :: string
  ctx_mimeType :: "string option"

record AppSettings =
  automationEnabled :: bool
  triggerTime :: bool
  triggerSmart :: bool
  triggerHybrid :: bool
  scanIntervalMs :: nat
  smartScanSensitivity :: number
  confidenceThreshold :: real
  autoSelect :: bool
  autoNext :: bool
  simplifiedMode :: bool
  modelName :: string
  debugMode :: bool
  apiKey :: "string option"
  externalContext :: "ExternalContext list"

text \<open>A frame is the data URL of a captured still.\<close>

type_synonym frame = string

section \<open>Effects as a trace of events\<close>

datatype action =
    Click real real string
  | TextClick string string
  | NextClick string

text \<open>
  One constructor for each message the controller and the analyzer hand to \<open>addLog\<close>, with
  the values the message is built from.
\<close>

datatype logMsg =
    TargetIdentified string
  | ExecutionAttempt nat nat
  | VerifyingSelection
  | SelectionConfirmed real
  | VerificationFailed
  | ProceedingToNext
  | FailedToVerify nat
  | ApiKeyMissing
  | InitiatingAnalysis
  | InitiatingOcr
  | AnalysisAttempt nat nat string bool
  | GeminiError string string "nat option"
  | BillingRecommendation
  | DetectedQuestions string bool nat "nat option"
  | NoQuestionFound string "nat option"
  | ConfidenceTooLow real real
  | NoClearAnswer
  | AnalysisComplete
  | DebugOcr string string number nat
  | WatchdogError string
  | WatchdogNewQuestion

text \<open>
  Every call that leaves the controller is an event: a log line, a frame capture, an OCR
  scan, a request to the generative model, a ChangeOracle check, an analyzer call, an
  action sequence posted to the extension bridge, a verification call, a settle or
  back-off delay, the timer that arms the next tick, the screen flash and the spoken
  answer.
\<close>

datatype event =
    AddLog logMsg
  | CaptureFrame
  | DetectText frame
  | GenerateContent string bool
  | CheckForNewQuestion frame "frame option"
  | AnalyzeScreenFrame frame
  | PostMessage "action list"
  | VerifySelection frame string
  | Wait nat
  | SetTimeout nat
  | Flash
  | SpeakAnswer

section \<open>The collaborators' answers\<close>

text \<open>
  What the remote model does for one \<open>generateContent\<close> request: it throws (the text is
  what \<open>error.message || String(error)\<close> reports), or it returns a response whose text may
  be missing.
\<close>

datatype genOutcome = GenThrows string | GenReturns "string option"

text \<open>The object \<open>JSON.parse\<close> yields, with the fields the program reads.\<close>

record ParsedJson =
  pj_hasQuestion :: bool
  pj_questions :: "QuestionData list option"
  pj_questionText :: "string option"
  pj_options :: "QuestionOption list option"
  pj_reasoning :: "string option"
  pj_suggestedAction :: "string option"
  pj_boundingBox :: "BoundingBox option"
  pj_nextButton :: "BoundingBox option"
  pj_error :: "string option"

record oracleReply =
  isNew :: bool
  currentText :: string
  oracleError :: "string option"

text \<open>
  \<open>verifySelection\<close> is imported from the service module, whose source does not define
  it; its answer is taken from the environment.
\<close>

record verification =
  isSelected :: bool
  confidence :: real

text \<open>
  Everything one tick of the scheduling loop reads from outside: the captured frame
  (\<open>None\<close> when the video is not ready), what the OCR worker recognises (\<open>None\<close> when it
  fails), the ChangeOracle's reply, the model's outcome at each attempt of the analyzer,
  the JSON parser (\<open>Inl\<close> is the message of the exception it throws), the frame and the
  verdict at each attempt of the verification loop, and whether the automation is
  switched off while the ChangeOracle check or the analysis is in flight.
\<close>

record env =
  captured :: "frame option"
  recognized :: "string option"
  oracleAnswer :: oracleReply
  stopDuringOracle :: bool
  generate :: "nat \<Rightarrow> genOutcome"
  parseJson :: "string \<Rightarrow> string + ParsedJson"
  stopDuringAnalysis :: bool
  verifyCapture :: "nat \<Rightarrow> frame option"
  verifyReply :: "nat \<Rightarrow> verification"

section \<open>The session state\<close>

text \<open>
  The React state and the refs of the application component that the controller
  writes. The settings and the stream a tick reads are those its closure captured; they
  are parameters of the functions below, and \<open>settings\<close> here is the state that
  \<open>setSettings\<close> updates.
\<close>

record session =
  settings :: AppSettings
  lastResult :: "AnalysisResult option"
  showApiKeyModal :: bool
  processingRef :: bool
  lastOcrTextRef :: string
  lastScreenshotRef :: "frame option"
  isAutomationRunningRef :: bool
  ocrStabilityCounterRef :: nat

definition truthy :: "string option \<Rightarrow> bool" where
  \<comment> \<open>an optional string in a condition: defined and not empty\<close>
  "truthy s = (case s of None \<Rightarrow> False | Some t \<Rightarrow> t \<noteq> [])"

definition detectText :: "string option \<Rightarrow> string" where
  "detectText r = (case r of None \<Rightarrow> [] | Some t \<Rightarrow> trim t)"

section \<open>geminiService: the analyzer\<close>

definition FALLBACK_MODEL :: string where
  "FALLBACK_MODEL = ''gemini-flash-lite-latest''"

definition hasExtension :: "string \<Rightarrow> string list \<Rightarrow> bool" where
  \<comment> \<open>the case-insensitive tests \<open>/\.(mp4|mov|...)$/i\<close>\<close>
  "hasExtension v exts = (\<exists>e \<in> set exts. endsWith (toLowerCase v) (CHR ''.'' # e))"

definition isMultimodal :: "ExternalContext \<Rightarrow> bool" where
  "isMultimodal item =
     (let isVideo = (ctx_type item = Video \<or> (ctx_type item = Link \<and>
            hasExtension (ctx_value item)
              [''mp4'', ''mov'', ''avi'', ''wmv'', ''3gp'', ''mpg'', ''flv'']));
          isImage = (ctx_type item = Image \<or> (ctx_type item = Link \<and>
            hasExtension (ctx_value item)
              [''jpg'', ''jpeg'', ''png'', ''webp'', ''heic'', ''heif'']));
          isPDF = (ctx_type item = Pdf \<or> (ctx_type item = Link \<and>
            hasExtension (ctx_value item) [''pdf'']))
      in isVideo \<or> isImage \<or> isPDF)"

definition validateModelSupport :: "string \<Rightarrow> ExternalContext list \<Rightarrow> string option" where
  "validateModelSupport name ctx =
     (let isLegacyModel = js_includes name ''1.0''
      in if isLegacyModel \<and> (\<exists>item \<in> set ctx. isMultimodal item)
         then Some (''Model \"'' @ name @
           ''\" does not support multimodal context (Images/Video/PDF). Please switch to a newer model like Gemini Flash or Pro.'')
         else None)"

definition errorResult :: "string \<Rightarrow> AnalysisResult" where
  "errorResult e =
     \<lparr>hasQuestion = False, questions = [], questionText = None, options = Some [],
      reasoning = None, suggestedAction = None, boundingBox = None, nextButton = None,
      error = Some e, modelUsed = None, attempts = None\<rparr>"

definition probeResult :: "string \<Rightarrow> string \<Rightarrow> nat \<Rightarrow> AnalysisResult" where
  "probeResult t currentModel attempt =
     \<lparr>hasQuestion = True, questions = [], questionText = Some t, options = Some [],
      reasoning = Some ''DIAGNOSTIC PROBE SUCCESS'', suggestedAction = None,
      boundingBox = None, nextButton = None, error = None,
      modelUsed = Some currentModel, attempts = Some attempt\<rparr>"

definition fence :: string where
  "fence = replicate 3 (CHR 0x60)"

definition stripFences :: "string \<Rightarrow> string" where
  \<comment> \<open>removes a leading code fence marked json and a trailing code fence, then trims\<close>
  "stripFences t =
     (let t1 = (if startsWith t (fence @ ''json'')
                then dropWhile isWhiteSpace (drop 7 t) else t);
          t2 = (if endsWith t1 fence
                then rev (dropWhile isWhiteSpace (rev (take (length t1 - 3) t1))) else t1)
      in trim t2)"

definition fromParsed :: "ParsedJson \<Rightarrow> string \<Rightarrow> nat \<Rightarrow> AnalysisResult" where
  "fromParsed parsed currentModel attempt =
     (let spread = \<lparr>hasQuestion = pj_hasQuestion parsed, questions = [],
             questionText = pj_questionText parsed, options = pj_options parsed,
             reasoning = pj_reasoning parsed, suggestedAction = pj_suggestedAction parsed,
             boundingBox = pj_boundingBox parsed, nextButton = pj_nextButton parsed,
             error = pj_error parsed, modelUsed = Some currentModel,
             attempts = Some attempt\<rparr>
      in case pj_questions parsed of
           None \<Rightarrow> spread
         | Some [] \<Rightarrow> spread
         | Some (first # others) \<Rightarrow>
             if pj_hasQuestion parsed
             then spread\<lparr>questions := first # others,
                    questionText := q_questionText first, options := Some (q_options first),
                    reasoning := q_reasoning first, suggestedAction := q_suggestedAction first,
                    boundingBox := q_boundingBox first\<rparr>
             else spread\<lparr>questions := first # others\<rparr>)"

text \<open>
  One attempt, inside the inner \<open>try\<close>: \<open>Inl\<close> is the exception the inner \<open>catch\<close> receives.
  The third attempt is the transcription-only probe.
\<close>

definition tryAttempt :: "env \<Rightarrow> string \<Rightarrow> nat \<Rightarrow> string + AnalysisResult" where
  "tryAttempt e currentModel attempt =
     (let isProbeAttempt = (attempt = 3)
      in case generate e attempt of
           GenThrows msg \<Rightarrow> Inl msg
         | GenReturns None \<Rightarrow> Inl ''Empty response''
         | GenReturns (Some raw) \<Rightarrow>
             let t = trim raw
             in if length t > 0 then
                  if isProbeAttempt then Inr (probeResult t currentModel attempt)
                  else (case parseJson e (stripFences t) of
                          Inl msg \<Rightarrow> Inl msg
                        | Inr parsed \<Rightarrow> Inr (fromParsed parsed currentModel attempt))
                else Inl ''Empty response'')"

text \<open>
  The retry loop \<open>while (attempt < maxRetries)\<close> with \<open>maxRetries = 3\<close>; \<open>attempt\<close> is the
  number of attempts made so far. It returns the result or the exception that reaches
  the outer \<open>catch\<close>, and the events it emitted.
\<close>

function attemptLoop ::
  "env \<Rightarrow> bool \<Rightarrow> string \<Rightarrow> nat \<Rightarrow> (string + AnalysisResult) \<times> event list" where
  "attemptLoop e progress currentModel attempt =
     (if attempt < 3 then
        let attempt' = attempt + 1;
            evs = (if progress
                   then [AddLog (AnalysisAttempt attempt' 3 currentModel (attempt' = 3))]
                   else []) @ [GenerateContent currentModel (attempt' = 3)]
        in case tryAttempt e currentModel attempt' of
             Inr result \<Rightarrow> (Inr result, evs)
           | Inl msg \<Rightarrow>
               if attempt' \<ge> 3 then (Inl msg, evs)
               else
                 let nextModel = (if currentModel \<noteq> FALLBACK_MODEL \<and> attempt' \<ge> 2
                                  then FALLBACK_MODEL else currentModel);
                     (r, rest) = attemptLoop e progress nextModel attempt'
                 in (r, evs @ [Wait (1000 * attempt')] @ rest)
      else (Inl ''Neural link failed'', []))"
  by pat_completeness auto
termination
  by (relation "measure (\<lambda>(e, progress, currentModel, attempt). 3 - attempt)") auto

definition analyzeScreenFrame ::
  "env \<Rightarrow> string \<Rightarrow> bool \<Rightarrow> ExternalContext list \<Rightarrow> AnalysisResult \<times> event list" where
  "analyzeScreenFrame e name progress ctx =
     (case validateModelSupport name ctx of
        Some supportError \<Rightarrow> (errorResult supportError, [])
      | None \<Rightarrow>
          (case attemptLoop e progress name 0 of
             (Inr result, evs) \<Rightarrow> (result, evs)
           | (Inl msg, evs) \<Rightarrow> (errorResult msg, evs)))"

section \<open>The controller: answer selection and verification\<close>

definition selectSequence :: "QuestionOption \<Rightarrow> action list" where
  "selectSequence opt =
     (case opt_boundingBox opt of
        Some b \<Rightarrow> [Click ((xmin b + xmax b) / 2) ((ymin b + ymax b) / 2)
                    (''[Coord] Select: '' @ take 15 (opt_text opt) @ ''...'')]
      | None \<Rightarrow> [])
     @ [TextClick (opt_text opt) (''[Text] Select: '' @ take 15 (opt_text opt) @ ''...'')]"

definition nextSequence :: "BoundingBox option \<Rightarrow> action list" where
  "nextSequence nextButtonBox =
     (case nextButtonBox of
        Some b \<Rightarrow> [Click ((xmin b + xmax b) / 2) ((ymin b + ymax b) / 2) ''Click Next'']
      | None \<Rightarrow> [NextClick ''Click Next (Search)''])"

text \<open>
  The loop \<open>while (attempts < maxRetries && !verified)\<close> of \<open>handleAutoPilot\<close>, with
  \<open>maxRetries = 5\<close>; \<open>tried\<close> is the source's counter \<open>attempts\<close>. It returns \<open>verified\<close> and the
  events it emitted. An attempt posts the selection sequence, waits, captures a frame,
  and asks for the verification only if a frame was captured.
\<close>

function autoPilotLoop ::
  "env \<Rightarrow> QuestionOption \<Rightarrow> nat \<Rightarrow> bool \<Rightarrow> bool \<times> event list" where
  "autoPilotLoop e opt tried verified =
     (if tried < 5 \<and> \<not> verified then
        let tried' = tried + 1;
            evs = [AddLog (ExecutionAttempt tried' 5), PostMessage (selectSequence opt),
                   Wait 2000, AddLog VerifyingSelection, CaptureFrame]
        in case verifyCapture e tried' of
             None \<Rightarrow>
               (let (v, rest) = autoPilotLoop e opt tried' verified in (v, evs @ rest))
           | Some verifyImg \<Rightarrow>
               if isSelected (verifyReply e tried') then
                 (let (v, rest) = autoPilotLoop e opt tried' True
                  in (v, evs @ [VerifySelection verifyImg (opt_text opt),
                         AddLog (SelectionConfirmed (confidence (verifyReply e tried')))]
                        @ rest))
               else
                 (let (v, rest) = autoPilotLoop e opt tried' verified
                  in (v, evs @ [VerifySelection verifyImg (opt_text opt),
                         AddLog VerificationFailed] @ rest))
      else (verified, []))"
  by pat_completeness auto
termination
  by (relation "measure (\<lambda>(e, opt, tried, verified). 5 - tried)") auto

definition handleAutoPilot ::
  "env \<Rightarrow> QuestionOption \<Rightarrow> BoundingBox option \<Rightarrow> bool \<Rightarrow> event list" where
  "handleAutoPilot e opt nextButtonBox clickNext =
     (let (verified, loopEvents) = autoPilotLoop e opt 0 False
      in [AddLog (TargetIdentified (take 30 (opt_text opt)))] @ loopEvents @
         (if verified \<and> clickNext
          then [AddLog ProceedingToNext, PostMessage (nextSequence nextButtonBox)]
          else if \<not> verified then [AddLog (FailedToVerify 5)]
          else []))"

section \<open>The controller: one analysis\<close>

text \<open>
  A function of the controller returns the session it leaves and the events it emitted,
  in order.
\<close>

definition stopAutomation :: "session \<Rightarrow> session" where
  \<comment> \<open>the effect that switches the automation off, run while a call is awaited\<close>
  "stopAutomation st = st\<lparr>isAutomationRunningRef := False\<rparr>"

text \<open>
  The report on the result in \<open>performAnalysis\<close>: the error with the fail-safe on a quota
  signal, or the detected question, or (in debug mode) the absence of one.
\<close>

definition reportResult ::
  "AppSettings \<Rightarrow> frame \<Rightarrow> AnalysisResult \<Rightarrow> session \<Rightarrow> session \<times> event list" where
  "reportResult cfg base64Image result st =
     (let activeModel = (if truthy (modelUsed result) then the (modelUsed result)
                         else modelName cfg);
          attemptInfo = (case attempts result of
                           Some n \<Rightarrow> if n > 1 then Some n else None
                         | None \<Rightarrow> None)
      in if truthy (error result) then
           if js_includes (the (error result)) ''Quota''
              \<or> js_includes (the (error result)) ''429''
           then (st\<lparr>settings := (settings st)\<lparr>automationEnabled := False\<rparr>\<rparr>,
                 [AddLog (GeminiError activeModel (the (error result)) attemptInfo),
                  AddLog BillingRecommendation])
           else (st, [AddLog (GeminiError activeModel (the (error result)) attemptInfo)])
         else if hasQuestion result then
           (st\<lparr>lastScreenshotRef := Some base64Image\<rparr>,
            [AddLog (DetectedQuestions activeModel
               (truthy (modelUsed result) \<and> modelUsed result \<noteq> Some (modelName cfg))
               (length (questions result)) attemptInfo),
             SpeakAnswer])
         else if debugMode cfg then
           (st, [AddLog (NoQuestionFound activeModel attemptInfo)])
         else (st, []))"

text \<open>
  The auto-select arm of \<open>performAnalysis\<close>: it changes no state and emits the events of the
  selection protocol or the report why nothing was selected.
\<close>

definition autoSelectArm :: "AppSettings \<Rightarrow> env \<Rightarrow> AnalysisResult \<Rightarrow> event list" where
  "autoSelectArm cfg e result =
     (if autoSelect cfg \<and> hasQuestion result then
        (case options result of
           None \<Rightarrow> []
         | Some opts \<Rightarrow>
             (case find isCorrect opts of
                Some correctOption \<Rightarrow>
                  if confidenceScore correctOption \<ge> confidenceThreshold cfg
                  then handleAutoPilot e correctOption (nextButton result) (autoNext cfg)
                  else [AddLog (ConfidenceTooLow (confidenceScore correctOption)
                          (confidenceThreshold cfg))]
              | None \<Rightarrow> [AddLog NoClearAnswer]))
      else [])"

text \<open>
  \<open>performAnalysis\<close>. The text of the local OCR scan only goes into the request to the
  model, whose outcome is the environment's. \<open>detectText\<close> and \<open>analyzeScreenFrame\<close> catch
  their own failures and \<open>verifySelection\<close> is taken to answer, so the \<open>catch\<close> branch is
  not entered and the \<open>finally\<close> block ends the function.
\<close>

definition performAnalysis ::
  "AppSettings \<Rightarrow> env \<Rightarrow> frame \<Rightarrow> bool \<Rightarrow> session \<Rightarrow> session \<times> event list" where
  "performAnalysis cfg e base64Image shouldFlash st =
     (if \<not> truthy (apiKey cfg) then
        (st\<lparr>showApiKeyModal := True\<rparr>, [AddLog ApiKeyMissing])
      else
        let st1 = st\<lparr>processingRef := True\<rparr>;
            startEvents = (if \<not> simplifiedMode cfg \<and> shouldFlash then [Flash] else [])
                          @ [AddLog InitiatingAnalysis]
                          @ (if debugMode cfg then [AddLog InitiatingOcr] else [])
                          @ [DetectText base64Image, AnalyzeScreenFrame base64Image];
            (result, genEvents) =
               analyzeScreenFrame e (modelName cfg) (debugMode cfg) (externalContext cfg);
            st2 = (if stopDuringAnalysis e then stopAutomation st1 else st1);
            (st3, reportEvents) = reportResult cfg base64Image result st2;
            st4 = st3\<lparr>lastResult := Some result\<rparr>;
            selectEvents = autoSelectArm cfg e result
        in (st4\<lparr>processingRef := False\<rparr>,
            startEvents @ genEvents @ reportEvents @ selectEvents @ [AddLog AnalysisComplete]))"

section \<open>The controller: the scheduling loop\<close>

function replaceDigitRuns :: "string \<Rightarrow> string" where
  "replaceDigitRuns [] = []"
| "replaceDigitRuns (c # cs) =
     (if isDigit c then CHR ''#'' # replaceDigitRuns (dropWhile isDigit cs)
      else c # replaceDigitRuns cs)"
  by pat_completeness auto
termination
  by (relation "measure length") (auto simp: less_Suc_eq_le length_dropWhile_le)

function collapseWhiteSpace :: "string \<Rightarrow> string" where
  "collapseWhiteSpace [] = []"
| "collapseWhiteSpace (c # cs) =
     (if isWhiteSpace c then CHR '' '' # collapseWhiteSpace (dropWhile isWhiteSpace cs)
      else c # collapseWhiteSpace cs)"
  by pat_completeness auto
termination
  by (relation "measure length") (auto simp: less_Suc_eq_le length_dropWhile_le)

definition normalizeOcr :: "string \<Rightarrow> string" where
  \<comment> \<open>digit runs to \<open>#\<close>, only letters, \<open>#\<close> and white space kept, runs of white space to one
      blank, trimmed, lower-cased\<close>
  "normalizeOcr rawText =
     toLowerCase (trim (collapseWhiteSpace
       (filter (\<lambda>c. isAsciiLetter c \<or> c = CHR ''#'' \<or> isWhiteSpace c)
          (replaceDigitRuns rawText))))"

definition adaptiveThreshold :: "number \<Rightarrow> number" where
  "adaptiveThreshold sensitivity =
     (let sensitivityFactor = numDivide sensitivity (fl 100)
      in numPlus (fl 0.2) (numTimes sensitivityFactor (fl 0.6)))"

text \<open>
  The local pre-filter of the hybrid trigger: it returns \<open>shouldCheckAI\<close>, the session with
  the stability counter and the reference text updated, and the debug log line.
  \<open>similarity\<close> is the number that the division in \<open>calculateTextSimilarity\<close> yields.
\<close>

definition hybridGate ::
  "AppSettings \<Rightarrow> string \<Rightarrow> session \<Rightarrow> bool \<times> session \<times> event list" where
  "hybridGate cfg rawText st =
     (let txt = normalizeOcr rawText;
          isMouseCovering = isTextSubset (lastOcrTextRef st) txt;
          isFeedbackAdded = isTextSubset txt (lastOcrTextRef st);
          similarity = fl (calculateTextSimilarity txt (lastOcrTextRef st));
          threshold = adaptiveThreshold (smartScanSensitivity cfg);
          rawChange = (\<not> isMouseCovering \<and> \<not> isFeedbackAdded
                       \<and> numLess similarity threshold \<and> length txt > 15);
          debugEvents = (if debugMode cfg
                         then [AddLog (DebugOcr (take 15 txt) (take 15 (lastOcrTextRef st))
                                 similarity (ocrStabilityCounterRef st))]
                         else [])
      in if rawChange then
           let st1 = st\<lparr>ocrStabilityCounterRef := ocrStabilityCounterRef st + 1\<rparr>
           in if ocrStabilityCounterRef st1 \<ge> 3
              then (True, st1\<lparr>lastOcrTextRef := txt, ocrStabilityCounterRef := 0\<rparr>,
                    debugEvents)
              else (False, st1, debugEvents)
         else (False, st\<lparr>ocrStabilityCounterRef := 0\<rparr>, debugEvents))"

text \<open>The escalated part of a tick: the ChangeOracle check and what follows it.\<close>

definition checkAI ::
  "AppSettings \<Rightarrow> env \<Rightarrow> frame \<Rightarrow> session \<Rightarrow> session \<times> event list" where
  "checkAI cfg e img st =
     (let callEvents = [CheckForNewQuestion img (lastScreenshotRef st)];
          st1 = (if stopDuringOracle e then stopAutomation st else st);
          reply = oracleAnswer e
      in if truthy (oracleError reply) then
           (st1, callEvents @ [AddLog (WatchdogError (the (oracleError reply)))])
         else if isNew reply then
           let st2 = st1\<lparr>lastScreenshotRef := Some img\<rparr>;
               st3 = (if \<not> triggerHybrid cfg
                      then st2\<lparr>lastOcrTextRef := currentText reply\<rparr> else st2);
               (st4, analysisEvents) = performAnalysis cfg e img False st3
           in (st4, callEvents @ [AddLog WatchdogNewQuestion] @ analysisEvents)
         else (st1, callEvents))"

text \<open>
  The work of one tick, before the next one is armed: the delay to the next tick, the
  session and the events. \<open>stream\<close> says whether the captured stream is there.
\<close>

definition tickWork ::
  "AppSettings \<Rightarrow> env \<Rightarrow> session \<Rightarrow> nat \<times> session \<times> event list" where
  "tickWork cfg e st =
     (if triggerTime cfg then
        (case captured e of
           None \<Rightarrow> (scanIntervalMs cfg, st, [CaptureFrame])
         | Some img \<Rightarrow>
             let (st1, analysisEvents) = performAnalysis cfg e img False st
             in (scanIntervalMs cfg, st1, [CaptureFrame] @ analysisEvents))
      else if triggerSmart cfg then
        (if \<not> processingRef st then
           (case captured e of
              None \<Rightarrow> (1000, st, [CaptureFrame])
            | Some img \<Rightarrow>
                let (shouldCheckAI, st1, gateEvents) =
                      (if triggerHybrid cfg
                       then (let (go, st', debugEvents) =
                                   hybridGate cfg (detectText (recognized e)) st
                             in (go, st', [DetectText img] @ debugEvents))
                       else (True, st, []))
                in if shouldCheckAI then
                     let (st2, checkEvents) = checkAI cfg e img st1
                     in (1000, st2, [CaptureFrame] @ gateEvents @ checkEvents)
                   else (1000, st1, [CaptureFrame] @ gateEvents))
         else (1000, st, []))
      else (1000, st, []))"

text \<open>One tick: \<open>runAutomationLoop\<close>.\<close>

definition runAutomationLoop ::
  "AppSettings \<Rightarrow> bool \<Rightarrow> env \<Rightarrow> session \<Rightarrow> session \<times> event list" where
  "runAutomationLoop cfg stream e st =
     (if \<not> isAutomationRunningRef st \<or> \<not> stream then (st, [])
      else
        let (nextRunDelay, st', workEvents) = tickWork cfg e st
        in if isAutomationRunningRef st' then (st', workEvents @ [SetTimeout nextRunDelay])
           else (st', workEvents))"

text \<open>Consecutive ticks, each with its own environment.\<close>

fun runTicks :: "AppSettings \<Rightarrow> bool \<Rightarrow> env list \<Rightarrow> session \<Rightarrow> session \<times> event list" where
  "runTicks cfg stream [] st = (st, [])"
| "runTicks cfg stream (e # es) st =
     (let (st1, evs1) = runAutomationLoop cfg stream e st;
          (st2, evs2) = runTicks cfg stream es st1
      in (st2, evs1 @ evs2))"

section \<open>Calls in flight\<close>

text \<open>
  A remote call is awaited, and other handlers run between its start and its reply. The
  functions below are the handlers up to the first call to the ChangeOracle or to the
  analyzer that they await: that call, if one is reached, and the session at that moment
  (or at the end of the handler, if none is reached).
\<close>

definition analysisStart :: "AppSettings \<Rightarrow> frame \<Rightarrow> session \<Rightarrow> event option \<times> session" where
  \<comment> \<open>\<open>performAnalysis\<close> up to the call of the analyzer, the local OCR scan having answered\<close>
  "analysisStart cfg base64Image st =
     (if \<not> truthy (apiKey cfg) then (None, st\<lparr>showApiKeyModal := True\<rparr>)
      else (Some (AnalyzeScreenFrame base64Image), st\<lparr>processingRef := True\<rparr>))"

definition tickStart :: "AppSettings \<Rightarrow> bool \<Rightarrow> env \<Rightarrow> session \<Rightarrow> event option \<times> session" where
  \<comment> \<open>\<open>runAutomationLoop\<close> up to its first remote call\<close>
  "tickStart cfg stream e st =
     (if \<not> isAutomationRunningRef st \<or> \<not> stream then (None, st)
      else if triggerTime cfg then
        (case captured e of
           None \<Rightarrow> (None, st)
         | Some img \<Rightarrow> analysisStart cfg img st)
      else if triggerSmart cfg then
        (if \<not> processingRef st then
           (case captured e of
              None \<Rightarrow> (None, st)
            | Some img \<Rightarrow>
                let (shouldCheckAI, st1) =
                      (if triggerHybrid cfg
                       then (let (go, st', debugEvents) =
                                   hybridGate cfg (detectText (recognized e)) st
                             in (go, st'))
                       else (True, st))
                in if shouldCheckAI
                   then (Some (CheckForNewQuestion img (lastScreenshotRef st1)), st1)
                   else (None, st1))
         else (None, st))
      else (None, st))"




section \<open>Observations on a trace\<close>

fun firstCall :: "event list \<Rightarrow> event option" where
  \<comment> \<open>the first call to the ChangeOracle or to the analyzer in a trace\<close>
  "firstCall [] = None"
| "firstCall (CheckForNewQuestion img prev # es) = Some (CheckForNewQuestion img prev)"
| "firstCall (AnalyzeScreenFrame img # es) = Some (AnalyzeScreenFrame img)"
| "firstCall (ev # es) = firstCall es"

fun dispatches :: "event list \<Rightarrow> action list list" where
  "dispatches [] = []"
| "dispatches (PostMessage sq # es) = sq # dispatches es"
| "dispatches (ev # es) = dispatches es"

fun verifications :: "event list \<Rightarrow> nat" where
  "verifications [] = 0"
| "verifications (VerifySelection img t # es) = Suc (verifications es)"
| "verifications (ev # es) = verifications es"

fun escalations :: "event list \<Rightarrow> nat" where
  "escalations [] = 0"
| "escalations (CheckForNewQuestion img prev # es) = Suc (escalations es)"
| "escalations (ev # es) = escalations es"

fun analyzerCalls :: "event list \<Rightarrow> nat" where
  "analyzerCalls [] = 0"
| "analyzerCalls (AnalyzeScreenFrame img # es) = Suc (analyzerCalls es)"
| "analyzerCalls (ev # es) = analyzerCalls es"

definition confirmsAt :: "env \<Rightarrow> nat \<Rightarrow> bool" where
  \<comment> \<open>attempt \<open>k\<close> re-captures a frame and the verification reports the option selected\<close>
  "confirmsAt e k =
     (case verifyCapture e k of None \<Rightarrow> False | Some img \<Rightarrow> isSelected (verifyReply e k))"

definition framesCaptured :: "env \<Rightarrow> nat \<Rightarrow> nat \<Rightarrow> nat" where
  \<comment> \<open>how many of the attempts \<open>lo + 1, ..., hi\<close> re-capture a frame\<close>
  "framesCaptured e lo hi = length (filter (\<lambda>j. verifyCapture e j \<noteq> None) [Suc lo..<Suc hi])"

definition quiet :: "event \<Rightarrow> bool" where
  \<comment> \<open>neither a ChangeOracle check, an analyzer call, a dispatch nor a verification call\<close>
  "quiet ev = (case ev of CheckForNewQuestion img prev \<Rightarrow> False | AnalyzeScreenFrame img \<Rightarrow> False
               | PostMessage sq \<Rightarrow> False | VerifySelection img t \<Rightarrow> False | _ \<Rightarrow> True)"

definition selectionEvent :: "QuestionOption \<Rightarrow> event \<Rightarrow> bool" where
  \<comment> \<open>what one attempt of the verification loop may emit\<close>
  "selectionEvent opt ev =
     (case ev of
        AddLog m \<Rightarrow> (case m of ExecutionAttempt a b \<Rightarrow> True | VerifyingSelection \<Rightarrow> True
                     | SelectionConfirmed c \<Rightarrow> True | VerificationFailed \<Rightarrow> True
                     | _ \<Rightarrow> False)
      | PostMessage sq \<Rightarrow> sq = selectSequence opt
      | Wait n \<Rightarrow> True
      | CaptureFrame \<Rightarrow> True
      | VerifySelection img t \<Rightarrow> True
      | _ \<Rightarrow> False)"

section \<open>The hybrid gate as the specification words it\<close>

text \<open>
  The criterion of the specification, read in the arithmetic of the real numbers: the
  threshold \<open>0.2 + 0.6 * (sensitivity / 100)\<close> and the similarity as the exact quotient.
\<close>

definition exactThreshold :: "real \<Rightarrow> real" where
  "exactThreshold sensitivity = 0.2 + 0.6 * (sensitivity / 100)"

definition exactCandidate :: "real \<Rightarrow> string \<Rightarrow> string \<Rightarrow> bool" where
  "exactCandidate sensitivity lastObserved currentTxt =
     (\<not> isTextSubset lastObserved currentTxt
      \<and> \<not> isTextSubset currentTxt lastObserved
      \<and> calculateTextSimilarity currentTxt lastObserved < exactThreshold sensitivity
      \<and> length currentTxt > 15)"

text \<open>
  The same criterion read in the arithmetic of the program's numbers: every operation of
  the formula and the division of the similarity round to binary64.
\<close>

definition specThreshold :: "number \<Rightarrow> number" where
  "specThreshold sensitivity =
     numPlus (fl 0.2) (numTimes (fl 0.6) (numDivide sensitivity (fl 100)))"

definition isRawCandidate :: "number \<Rightarrow> string \<Rightarrow> string \<Rightarrow> bool" where
  "isRawCandidate sensitivity lastObserved currentTxt =
     (\<not> isTextSubset lastObserved currentTxt
      \<and> \<not> isTextSubset currentTxt lastObserved
      \<and> numLess (fl (calculateTextSimilarity currentTxt lastObserved))
            (specThreshold sensitivity)
      \<and> length currentTxt > 15)"

definition observedText :: "env \<Rightarrow> string" where
  \<comment> \<open>the normalized text a hybrid tick extracts from its frame\<close>
  "observedText e = normalizeOcr (detectText (recognized e))"

definition gateTick :: "AppSettings \<Rightarrow> bool \<Rightarrow> env \<Rightarrow> session \<Rightarrow> bool" where
  \<comment> \<open>a tick in hybrid mode that is not skipped and captures a frame\<close>
  "gateTick cfg stream e st =
     (isAutomationRunningRef st \<and> stream \<and> \<not> triggerTime cfg \<and> triggerSmart cfg
      \<and> triggerHybrid cfg \<and> \<not> processingRef st \<and> captured e \<noteq> None)"

text \<open>
  A run of consecutive hybrid ticks, none skipped, each a raw candidate against the
  reference text of its moment.
\<close>

fun candidateRun :: "AppSettings \<Rightarrow> bool \<Rightarrow> env list \<Rightarrow> session \<Rightarrow> bool" where
  "candidateRun cfg stream [] st = True"
| "candidateRun cfg stream (e # es) st =
     (gateTick cfg stream e st
      \<and> isRawCandidate (smartScanSensitivity cfg) (lastOcrTextRef st) (observedText e)
      \<and> candidateRun cfg stream es (fst (runAutomationLoop cfg stream e st)))"

definition noStop :: "env \<Rightarrow> env" where
  \<comment> \<open>the same environment, with the automation left running during the remote calls\<close>
  "noStop e = e\<lparr>stopDuringOracle := False, stopDuringAnalysis := False\<rparr>"

definition agreeButRunning :: "session \<Rightarrow> session \<Rightarrow> bool" where
  \<comment> \<open>two sessions that differ at most in \<open>isAutomationRunningRef\<close>\<close>
  "agreeButRunning st st' =
     (settings st = settings st' \<and> lastResult st = lastResult st'
      \<and> showApiKeyModal st = showApiKeyModal st' \<and> processingRef st = processingRef st'
      \<and> lastOcrTextRef st = lastOcrTextRef st' \<and> lastScreenshotRef st = lastScreenshotRef st'
      \<and> ocrStabilityCounterRef st = ocrStabilityCounterRef st')"

definition nextDelay :: "AppSettings \<Rightarrow> nat" where
  "nextDelay cfg = (if triggerTime cfg then scanIntervalMs cfg else 1000)"

section \<open>Example inputs\<close>

definition frameA :: frame where
  "frameA = ''data:image/jpeg;base64,AAAA''"

definition optionFour :: QuestionOption where
  "optionFour = \<lparr>opt_text = ''4'', isCorrect = True, confidenceScore = 0.9,
                  opt_boundingBox = None\<rparr>"

definition optionThree :: QuestionOption where
  "optionThree = \<lparr>opt_text = ''3'', isCorrect = False, confidenceScore = 0.1,
                   opt_boundingBox = None\<rparr>"

definition questionA :: QuestionData where
  "questionA = \<lparr>q_type = Some ''multiple-choice'', q_questionText = Some ''2+2=?'',
                 q_options = [optionThree, optionFour], q_reasoning = Some ''arithmetic'',
                 q_suggestedAction = None, q_boundingBox = None\<rparr>"

definition parsedA :: ParsedJson where
  "parsedA = \<lparr>pj_hasQuestion = True, pj_questions = Some [questionA],
               pj_questionText = None, pj_options = None, pj_reasoning = None,
               pj_suggestedAction = None, pj_boundingBox = None, pj_nextButton = None,
               pj_error = None\<rparr>"

text \<open>
  An environment in which every call succeeds: the oracle reports a new question, the
  model answers with JSON that parses to \<open>parsedA\<close>, every re-capture yields a frame and the
  verification reports the option selected at the third attempt.
\<close>

definition demoEnv :: env where
  "demoEnv =
     \<lparr>captured = Some frameA,
      recognized = Some ''Question 7: which planet is known as the red planet'',
      oracleAnswer = \<lparr>isNew = True, currentText = ''2+2=?'', oracleError = None\<rparr>,
      stopDuringOracle = False,
      generate = (\<lambda>k. GenReturns (Some ''{}'')),
      parseJson = (\<lambda>t. Inr parsedA),
      stopDuringAnalysis = False,
      verifyCapture = (\<lambda>k. Some frameA),
      verifyReply = (\<lambda>k. \<lparr>isSelected = (k = 3), confidence = 0.95\<rparr>)\<rparr>"

definition neverSelectedEnv :: env where
  \<comment> \<open>the verification always reports the option not selected\<close>
  "neverSelectedEnv = demoEnv\<lparr>verifyReply := (\<lambda>k. \<lparr>isSelected = False, confidence = 0.2\<rparr>)\<rparr>"

definition noFrameEnv :: env where
  \<comment> \<open>no frame can be captured during the verification loop\<close>
  "noFrameEnv = demoEnv\<lparr>verifyCapture := (\<lambda>k. None)\<rparr>"

definition demoSettings :: AppSettings where
  \<comment> \<open>the default settings with the automation, auto-select and auto-advance switched on\<close>
  "demoSettings =
     \<lparr>automationEnabled = True, triggerTime = False, triggerSmart = True,
      triggerHybrid = True, scanIntervalMs = 3000, smartScanSensitivity = Finite 50,
      confidenceThreshold = 0.7, autoSelect = True, autoNext = True,
      simplifiedMode = False, modelName = ''gemini-3-flash-preview'', debugMode = False,
      apiKey = Some ''key'', externalContext = []\<rparr>"

definition demoSession :: session where
  "demoSession =
     \<lparr>settings = demoSettings, lastResult = None, showApiKeyModal = False,
      processingRef = False, lastOcrTextRef = [], lastScreenshotRef = None,
      isAutomationRunningRef = True, ocrStabilityCounterRef = 0\<rparr>"

definition optionHalf :: QuestionOption where
  "optionHalf = \<lparr>opt_text = ''4'', isCorrect = True, confidenceScore = 0.5,
                  opt_boundingBox = None\<rparr>"

definition parsedLow :: ParsedJson where
  \<comment> \<open>one question whose correct option has confidence 0.5\<close>
  "parsedLow = parsedA\<lparr>pj_questions := Some [questionA\<lparr>q_options := [optionThree, optionHalf]\<rparr>]\<rparr>"

definition lowConfidenceEnv :: env where
  "lowConfidenceEnv = demoEnv\<lparr>parseJson := (\<lambda>t. Inr parsedLow)\<rparr>"

definition quotaMessage :: string where
  "quotaMessage = ''429 RESOURCE_EXHAUSTED: Quota exceeded''"

definition quotaEnv :: env where
  \<comment> \<open>every request to the model is refused for quota\<close>
  "quotaEnv = demoEnv\<lparr>generate := (\<lambda>k. GenThrows quotaMessage)\<rparr>"

definition probeEnv :: env where
  \<comment> \<open>the model answers nothing at the first two attempts and transcribes at the third\<close>
  "probeEnv = demoEnv\<lparr>generate :=
     (\<lambda>k. if k = 3 then GenReturns (Some ''What is 2+2?'') else GenReturns None)\<rparr>"

definition busySession :: session where
  \<comment> \<open>an analysis is in flight\<close>
  "busySession = demoSession\<lparr>processingRef := True\<rparr>"

definition shortTextEnv :: env where
  \<comment> \<open>the OCR reads a text that is too short to count\<close>
  "shortTextEnv = demoEnv\<lparr>recognized := Some ''Loading...''\<rparr>"

definition smartSettings :: AppSettings where
  \<comment> \<open>the remote-checked trigger without the local pre-filter\<close>
  "smartSettings = demoSettings\<lparr>triggerHybrid := False\<rparr>"

definition pausedEnv :: env where
  \<comment> \<open>the video is paused: no frame can be captured and nothing is read\<close>
  "pausedEnv = demoEnv\<lparr>captured := None, recognized := None\<rparr>"

definition referenceText :: string where
  "referenceText = ''what is the capital city of france''"

definition referenceSession :: session where
  \<comment> \<open>an earlier question is the reference text\<close>
  "referenceSession = demoSession\<lparr>lastOcrTextRef := referenceText\<rparr>"

definition coveredEnv :: env where
  \<comment> \<open>the pointer hides one word of the reference question\<close>
  "coveredEnv = demoEnv\<lparr>recognized := Some ''What is the capital of France?''\<rparr>"

definition similarEnv :: env where
  \<comment> \<open>one word of the reference question has changed\<close>
  "similarEnv = demoEnv\<lparr>recognized := Some ''What is the capital town of France?''\<rparr>"

text \<open>
  Two texts of 64 and 65 different words that share 29 of them, so that their similarity
  is exactly \<open>29 / 100\<close>: the words of the current text only, the shared words and the
  words of the reference text only, then the two texts. The settings have the sensitivity
  at 15, a position of the slider (10 to 100 in steps of 5).
\<close>

definition currentOnlyWords :: "string list" where
  "currentOnlyWords =
     [''alpha'', ''bravo'', ''ac'', ''ad'', ''ae'', ''af'', ''ag'', ''ah'',
      ''ai'', ''aj'', ''ak'', ''al'', ''am'', ''an'', ''ao'', ''ap'',
      ''aq'', ''ar'', ''as'', ''at'', ''au'', ''av'', ''aw'', ''ax'',
      ''ay'', ''az'', ''ba'', ''bb'', ''bc'', ''bd'', ''be'', ''bf'',
      ''bg'', ''bh'', ''bi'']"

definition sharedWords :: "string list" where
  "sharedWords =
     [''bj'', ''bk'', ''bl'', ''bm'', ''bn'', ''bo'', ''bp'', ''bq'',
      ''br'', ''bs'', ''bt'', ''bu'', ''bv'', ''bw'', ''bx'', ''by'',
      ''bz'', ''ca'', ''cb'', ''cc'', ''cd'', ''ce'', ''cf'', ''cg'',
      ''ch'', ''ci'', ''cj'', ''ck'', ''cl'']"

definition referenceOnlyWords :: "string list" where
  "referenceOnlyWords =
     [''cm'', ''cn'', ''co'', ''cp'', ''cq'', ''cr'', ''cs'', ''ct'',
      ''cu'', ''cv'', ''cw'', ''cx'', ''cy'', ''cz'', ''da'', ''db'',
      ''dc'', ''dd'', ''de'', ''df'', ''dg'', ''dh'', ''di'', ''dj'',
      ''dk'', ''dl'', ''dm'', ''dn'', ''do'', ''dp'', ''dq'', ''dr'',
      ''ds'', ''dt'', ''yankee'', ''zulu'']"

definition boundaryText :: string where
  "boundaryText =
     ''alpha bravo ac ad ae af ag ah ai aj ak al am an ao ap aq ar''
     @ '' as at au av aw ax ay az ba bb bc bd be bf bg bh bi bj bk bl''
     @ '' bm bn bo bp bq br bs bt bu bv bw bx by bz ca cb cc cd ce cf''
     @ '' cg ch ci cj ck cl''"

definition boundaryReference :: string where
  "boundaryReference =
     ''bj bk bl bm bn bo bp bq br bs bt bu bv bw bx by bz ca cb cc''
     @ '' cd ce cf cg ch ci cj ck cl cm cn co cp cq cr cs ct cu cv cw''
     @ '' cx cy cz da db dc dd de df dg dh di dj dk dl dm dn do dp dq''
     @ '' dr ds dt yankee zulu''"

definition boundarySession :: session where
  "boundarySession = demoSession\<lparr>lastOcrTextRef := boundaryReference\<rparr>"

definition boundarySettings :: AppSettings where
  "boundarySettings = demoSettings\<lparr>smartScanSensitivity := Finite 15\<rparr>"

definition boundaryEnv :: env where
  "boundaryEnv = demoEnv\<lparr>recognized := Some boundaryText\<rparr>"

definition stoppedEnv :: env where
  \<comment> \<open>the automation is switched off while the ChangeOracle check is in flight\<close>
  "stoppedEnv = demoEnv\<lparr>stopDuringOracle := True\<rparr>"

section \<open>Evaluating numbers\<close>

declare scaleUp.simps [simp del]
declare scaleDown.simps [simp del]

lemmas fl_eval = fl_def roundMagnitude_def scaleUp.simps scaleDown.simps roundHalfEven_def
  pow2_def Let_def

lemma fl_hundred: "fl 100 = Finite 100"
  by (simp add: fl_eval)

lemma fl_fifth: "fl (1 / 5) = Finite (3602879701896397 / 2 ^ 54)"
  by (simp add: fl_eval)

lemma fl_three_fifths: "fl (3 / 5) = Finite (5404319552844595 / 2 ^ 53)"
  by (simp add: fl_eval)

lemma numTimes_commute: "numTimes a b = numTimes b a"
  by (cases a; cases b) (auto simp: mult.commute)

lemma specThreshold_eq: "specThreshold s = adaptiveThreshold s"
  by (simp add: specThreshold_def adaptiveThreshold_def Let_def numTimes_commute)

lemma adaptiveThreshold_Finite:
  "adaptiveThreshold (Finite x) =
     numPlus (Finite (3602879701896397 / 2 ^ 54))
       (numTimes (fl (x / 100)) (Finite (5404319552844595 / 2 ^ 53)))"
  by (simp add: adaptiveThreshold_def fl_hundred fl_fifth fl_three_fifths)

lemma adaptiveThreshold_50: "adaptiveThreshold (Finite 50) = Finite (1 / 2)"
  unfolding adaptiveThreshold_Finite by (simp add: fl_eval)

lemma adaptiveThreshold_100: "adaptiveThreshold (Finite 100) = Finite (3602879701896397 / 2 ^ 52)"
  unfolding adaptiveThreshold_Finite by (simp add: fl_eval)

lemma adaptiveThreshold_10: "adaptiveThreshold (Finite 10) = Finite (1170935903116329 / 2 ^ 52)"
  unfolding adaptiveThreshold_Finite by (simp add: fl_eval)

lemma adaptiveThreshold_15: "adaptiveThreshold (Finite 15) = Finite (326510972984361 / 2 ^ 50)"
  unfolding adaptiveThreshold_Finite by (simp add: fl_eval)

section \<open>Properties of the text comparison\<close>

lemmas js_eval =
  isWhiteSpace_def isDigit_def isAsciiLetter_def isWordChar_def isUpperChar_def
  toLowerChar_def toLowerCase_def trim_def endsWith_def char_of_def bit_Suc_0_iff

lemma set_foldl_setAdd: "set (foldl setAdd s xs) = set s \<union> set xs"
  by (induction xs arbitrary: s) (auto simp: setAdd_def)

lemma distinct_foldl_setAdd: "distinct s \<Longrightarrow> distinct (foldl setAdd s xs)"
  by (induction xs arbitrary: s) (auto simp: setAdd_def)

lemma set_mkSet: "set (mkSet xs) = set xs"
  by (simp add: mkSet_def set_foldl_setAdd)

lemma distinct_mkSet: "distinct (mkSet xs)"
  by (simp add: mkSet_def distinct_foldl_setAdd)

lemma size_mkSet: "length (mkSet xs) = card (set xs)"
  using distinct_card [OF distinct_mkSet, of xs] by (simp add: set_mkSet)

lemma js_split_nonempty: "js_split s \<noteq> []"
  by (induction s rule: js_split.induct) (auto split: list.splits)

lemma similarity_as_cards:
  assumes "text1 \<noteq> []" and "text2 \<noteq> []"
  shows "calculateTextSimilarity text1 text2 =
     real (card (tokenSet text1 \<inter> tokenSet text2)) / real (card (tokenSet text1 \<union> tokenSet text2))"
proof -
  define s1 where "s1 = mkSet (js_split (toLowerCase text1))"
  define s2 where "s2 = mkSet (js_split (toLowerCase text2))"
  have s1: "set s1 = tokenSet text1" and s2: "set s2 = tokenSet text2"
    by (simp_all add: s1_def s2_def set_mkSet tokenSet_def)
  have "set (filter (has s2) s1) = tokenSet text1 \<inter> tokenSet text2"
    using s1 s2 by (auto simp: has_def)
  then have inter: "length (mkSet (filter (has s2) s1)) = card (tokenSet text1 \<inter> tokenSet text2)"
    by (simp only: size_mkSet)
  have "set (s1 @ s2) = tokenSet text1 \<union> tokenSet text2"
    using s1 s2 by simp
  then have un: "length (mkSet (s1 @ s2)) = card (tokenSet text1 \<union> tokenSet text2)"
    by (simp only: size_mkSet)
  have "calculateTextSimilarity text1 text2 =
          real (length (mkSet (filter (has s2) s1))) / real (length (mkSet (s1 @ s2)))"
    using assms by (simp add: calculateTextSimilarity_def Let_def s1_def s2_def)
  then show ?thesis by (simp only: inter un)
qed

lemma tokenSet_nonempty: "tokenSet a \<noteq> {}"
  by (simp add: tokenSet_def js_split_nonempty)



section \<open>The subset test\<close>

lemma clean_empty: "clean [] = []"
  by (simp add: clean_def toLowerCase_def)

text \<open>
  Claim C5, as the specification states it, fails: \<open>isTextSubset\<close> first returns \<open>False\<close> when
  either string is empty, so an empty child is never a subset.
\<close>

theorem isTextSubset_empty_child_counterexample:
  "isTextSubset ''What is the capital of France'' [] = False"
  by (simp add: isTextSubset_def)

text \<open>
  Claim C5, amended. When the child has no token left after cleaning, \<open>isTextSubset\<close>
  returns \<open>True\<close> exactly if both strings are non-empty: for a non-empty parent and a
  non-empty child without tokens the answer is \<open>True\<close>, and for an empty child (or an empty
  parent) it is \<open>False\<close>.
\<close>

theorem isTextSubset_zero_tokens:
  "clean child = [] \<Longrightarrow> isTextSubset parent child = (parent \<noteq> [] \<and> child \<noteq> [])"
  by (simp add: isTextSubset_def Let_def)

theorem isTextSubset_zero_tokens_witness:
  "clean ''a: b?'' = [] \<and> isTextSubset ''What is the capital of France'' ''a: b?''
   \<and> clean [] = [] \<and> \<not> isTextSubset ''What is the capital of France'' []
   \<and> \<not> isTextSubset [] ''a: b?''"
proof -
  have c: "clean ''a: b?'' = []"
    by (simp add: clean_def js_eval)
  from isTextSubset_zero_tokens [OF c, of "''What is the capital of France''"]
       isTextSubset_zero_tokens [OF clean_empty, of "''What is the capital of France''"]
       isTextSubset_zero_tokens [OF c, of "[]"] c clean_empty
  show ?thesis by simp
qed

section \<open>Counting events\<close>

declare autoPilotLoop.simps [simp del]
declare attemptLoop.simps [simp del]

lemma dispatches_append: "dispatches (xs @ ys) = dispatches xs @ dispatches ys"
  by (induction xs rule: dispatches.induct) simp_all

lemma verifications_append: "verifications (xs @ ys) = verifications xs + verifications ys"
  by (induction xs rule: verifications.induct) simp_all

lemma autoPilotLoop_verified: "autoPilotLoop e opt tried True = (True, [])"
  by (subst autoPilotLoop.simps) simp

lemma autoPilotLoop_done: "5 \<le> tried \<Longrightarrow> autoPilotLoop e opt tried v = (v, [])"
  by (subst autoPilotLoop.simps) simp

lemma framesCaptured_step:
  "lo < hi \<Longrightarrow> framesCaptured e lo hi =
     (if verifyCapture e (Suc lo) = None then 0 else 1) + framesCaptured e (Suc lo) hi"
proof -
  assume "lo < hi"
  then have "[Suc lo..<Suc hi] = Suc lo # [Suc (Suc lo)..<Suc hi]"
    by (simp add: upt_conv_Cons del: upt_Suc)
  then show ?thesis by (simp add: framesCaptured_def del: upt_Suc)
qed

lemma framesCaptured_same: "framesCaptured e k k = 0"
  by (simp add: framesCaptured_def)

lemma autoPilotLoop_unverified_step:
  assumes "tried < 5" and "\<not> confirmsAt e (Suc tried)"
  shows "fst (autoPilotLoop e opt tried False) = fst (autoPilotLoop e opt (Suc tried) False)"
    and "dispatches (snd (autoPilotLoop e opt tried False)) =
           selectSequence opt # dispatches (snd (autoPilotLoop e opt (Suc tried) False))"
    and "verifications (snd (autoPilotLoop e opt tried False)) =
           (if verifyCapture e (Suc tried) = None then 0 else 1)
             + verifications (snd (autoPilotLoop e opt (Suc tried) False))"
  using assms
  by (subst autoPilotLoop.simps;
      simp add: confirmsAt_def Let_def dispatches_append verifications_append
           split: option.splits prod.splits)+

lemma autoPilotLoop_confirmed_step:
  assumes "tried < 5" and "confirmsAt e (Suc tried)"
  shows "fst (autoPilotLoop e opt tried False) = True"
    and "dispatches (snd (autoPilotLoop e opt tried False)) = [selectSequence opt]"
    and "verifications (snd (autoPilotLoop e opt tried False)) = 1"
  using assms
  by (subst autoPilotLoop.simps;
      simp add: confirmsAt_def Let_def dispatches_append verifications_append
           autoPilotLoop_verified split: option.splits prod.splits)+

lemma autoPilotLoop_never_confirmed:
  "tried \<le> 5 \<Longrightarrow> (\<forall>j. tried < j \<and> j \<le> 5 \<longrightarrow> \<not> confirmsAt e j) \<Longrightarrow>
   fst (autoPilotLoop e opt tried False) = False \<and>
   dispatches (snd (autoPilotLoop e opt tried False)) = replicate (5 - tried) (selectSequence opt) \<and>
   verifications (snd (autoPilotLoop e opt tried False)) = framesCaptured e tried 5"
proof (induction "5 - tried" arbitrary: tried)
  case 0
  then have "tried = 5" by simp
  then show ?case by (simp add: autoPilotLoop_done framesCaptured_same)
next
  case (Suc n)
  then have lt: "tried < 5" by simp
  from Suc.prems have nc: "\<not> confirmsAt e (Suc tried)" using lt by simp
  from Suc.hyps(2) have n: "n = 5 - Suc tried" by simp
  have rest: "\<forall>j. Suc tried < j \<and> j \<le> 5 \<longrightarrow> \<not> confirmsAt e j"
    using Suc.prems(2) by simp
  from Suc.hyps(1) [OF n _ rest] lt
  have IH: "fst (autoPilotLoop e opt (Suc tried) False) = False"
    "dispatches (snd (autoPilotLoop e opt (Suc tried) False)) = replicate (5 - Suc tried) (selectSequence opt)"
    "verifications (snd (autoPilotLoop e opt (Suc tried) False)) = framesCaptured e (Suc tried) 5"
    by simp_all
  have "replicate (5 - tried) (selectSequence opt) = selectSequence opt # replicate (5 - Suc tried) (selectSequence opt)"
    using lt by (simp add: Suc_diff_Suc flip: replicate_Suc)
  then show ?case
    using autoPilotLoop_unverified_step [OF lt nc, of opt] IH framesCaptured_step [of tried 5 e] lt
    by simp
qed

lemma autoPilotLoop_first_confirmed:
  "tried < k \<Longrightarrow> k \<le> 5 \<Longrightarrow> (\<forall>j. tried < j \<and> j < k \<longrightarrow> \<not> confirmsAt e j) \<Longrightarrow>
   confirmsAt e k \<Longrightarrow>
   fst (autoPilotLoop e opt tried False) = True \<and>
   dispatches (snd (autoPilotLoop e opt tried False)) = replicate (k - tried) (selectSequence opt) \<and>
   verifications (snd (autoPilotLoop e opt tried False)) = framesCaptured e tried k"
proof (induction "k - tried" arbitrary: tried)
  case 0
  then show ?case by simp
next
  case (Suc n)
  then have lt: "tried < 5" by simp
  show ?case
  proof (cases "Suc tried = k")
    case True
    with Suc.prems have c: "confirmsAt e (Suc tried)" by simp
    then have "verifyCapture e (Suc tried) \<noteq> None"
      by (auto simp: confirmsAt_def split: option.splits)
    then have "framesCaptured e tried k = 1"
      using True framesCaptured_step [of tried k e] by (simp add: framesCaptured_same)
    then show ?thesis
      using autoPilotLoop_confirmed_step [OF lt c, of opt] True by auto
  next
    case False
    with Suc.prems have lt2: "Suc tried < k" by simp
    from Suc.prems lt2 have nc: "\<not> confirmsAt e (Suc tried)" by simp
    from Suc.hyps(2) have n: "n = k - Suc tried" by simp
    have rest: "\<forall>j. Suc tried < j \<and> j < k \<longrightarrow> \<not> confirmsAt e j"
      using Suc.prems(3) by simp
    from Suc.hyps(1) [OF n lt2 Suc.prems(2) rest Suc.prems(4)]
    have IH: "fst (autoPilotLoop e opt (Suc tried) False) = True"
      "dispatches (snd (autoPilotLoop e opt (Suc tried) False)) = replicate (k - Suc tried) (selectSequence opt)"
      "verifications (snd (autoPilotLoop e opt (Suc tried) False)) = framesCaptured e (Suc tried) k"
      by simp_all
    have "replicate (k - tried) (selectSequence opt) = selectSequence opt # replicate (k - Suc tried) (selectSequence opt)"
      using lt2 by (simp add: Suc_diff_Suc flip: replicate_Suc)
    then show ?thesis
      using autoPilotLoop_unverified_step [OF lt nc, of opt] IH framesCaptured_step [of tried k e] Suc.prems(1)
      by simp
  qed
qed

lemma escalations_append: "escalations (xs @ ys) = escalations xs + escalations ys"
  by (induction xs rule: escalations.induct) simp_all

lemma analyzerCalls_append: "analyzerCalls (xs @ ys) = analyzerCalls xs + analyzerCalls ys"
  by (induction xs rule: analyzerCalls.induct) simp_all

lemma quiet_counts:
  "\<forall>ev \<in> set es. quiet ev \<Longrightarrow>
   dispatches es = [] \<and> verifications es = 0 \<and> escalations es = 0 \<and> analyzerCalls es = 0"
proof (induction es)
  case Nil
  then show ?case by simp
next
  case (Cons ev es)
  then show ?case by (cases ev) (simp_all add: quiet_def)
qed

lemma attemptLoop_quiet: "\<forall>ev \<in> set (snd (attemptLoop e progress m k)). quiet ev"
proof (induction "3 - k" arbitrary: m k)
  case 0
  then show ?case by (subst attemptLoop.simps) simp
next
  case (Suc n)
  then have lt: "k < 3" by simp
  from Suc.hyps(2) have n: "n = 3 - Suc k" by simp
  note IH = Suc.hyps(1) [OF n]
  note step = attemptLoop.simps [of e progress m k]
  show ?case
    unfolding step using IH [of FALLBACK_MODEL] IH [of m] lt
    by (auto simp: Let_def quiet_def split: sum.splits prod.splits)
qed

lemma analyzeScreenFrame_quiet:
  "\<forall>ev \<in> set (snd (analyzeScreenFrame e name progress ctx)). quiet ev"
  using attemptLoop_quiet [of e progress name 0]
  by (auto simp: analyzeScreenFrame_def split: option.splits prod.splits sum.splits)

lemma autoPilotLoop_events:
  "\<forall>ev \<in> set (snd (autoPilotLoop e opt tried v)). selectionEvent opt ev"
proof (induction "5 - tried" arbitrary: tried v)
  case 0
  then show ?case by (simp add: autoPilotLoop_done)
next
  case (Suc n)
  then have lt: "tried < 5" by simp
  from Suc.hyps(2) have n: "n = 5 - Suc tried" by simp
  note IH = Suc.hyps(1) [OF n, of False]
  show ?case
  proof (cases v)
    case True
    then show ?thesis by (simp add: autoPilotLoop_verified)
  next
    case False
    then have v: "v = False" by simp
    show ?thesis
      unfolding v autoPilotLoop.simps [of e opt tried False] using IH lt
      by (auto simp: Let_def selectionEvent_def autoPilotLoop_verified
               split: option.splits prod.splits)
  qed
qed

lemma selectionEvent_counts:
  "\<forall>ev \<in> set es. selectionEvent opt ev \<Longrightarrow> escalations es = 0 \<and> analyzerCalls es = 0"
proof (induction es)
  case Nil
  then show ?case by simp
next
  case (Cons ev es)
  then show ?case by (cases ev) (simp_all add: selectionEvent_def)
qed

lemma select_ne_next: "selectSequence opt \<noteq> nextSequence nb"
  by (cases "opt_boundingBox opt"; cases nb) (simp_all add: selectSequence_def nextSequence_def)


section \<open>The verification loop\<close>

lemma framesCaptured_all:
  "(\<forall>j \<in> {1..k}. verifyCapture e j \<noteq> None) \<Longrightarrow> framesCaptured e 0 k = k"
proof -
  assume a: "\<forall>j \<in> {1..k}. verifyCapture e j \<noteq> None"
  have "filter (\<lambda>j. verifyCapture e j \<noteq> None) [Suc 0..<Suc k] = [Suc 0..<Suc k]"
    using a by (intro filter_True) auto
  then show ?thesis by (simp add: framesCaptured_def del: upt_Suc)
qed

lemma selectionEvent_logs:
  "\<forall>ev \<in> set es. selectionEvent opt ev \<Longrightarrow>
   AddLog (FailedToVerify n) \<notin> set es \<and> AddLog ProceedingToNext \<notin> set es"
  by (auto simp: selectionEvent_def)

text \<open>
  Claim C3, amended. The verification loop makes at most 5 attempts; each attempt posts one
  selection sequence and then makes one verification call if the re-capture yields a
  frame, and none otherwise (such an attempt counts as not verified). If no attempt
  confirms the selection there are exactly 5 dispatches, as many verification calls as
  frames were captured (5 when every capture succeeds), the terminal failure is logged
  and no next-button sequence is dispatched. If attempt \<open>k \<le> 5\<close> is the first to confirm,
  there are \<open>k\<close> selection dispatches and as many verification calls as frames were captured
  up to \<open>k\<close> (\<open>k\<close> when every capture succeeds), followed, when auto-advance is on, by
  exactly one next-button dispatch without a further verification call.
\<close>

theorem verification_loop_attempts:
  "((\<forall>j \<in> {1..5}. \<not> confirmsAt e j) \<longrightarrow>
      dispatches (handleAutoPilot e opt nb clickNext) = replicate 5 (selectSequence opt)
      \<and> verifications (handleAutoPilot e opt nb clickNext) = framesCaptured e 0 5
      \<and> AddLog (FailedToVerify 5) \<in> set (handleAutoPilot e opt nb clickNext)
      \<and> nextSequence nb \<notin> set (dispatches (handleAutoPilot e opt nb clickNext)))
   \<and> (k \<in> {1..5} \<and> (\<forall>j \<in> {1..<k}. \<not> confirmsAt e j) \<and> confirmsAt e k \<longrightarrow>
      dispatches (handleAutoPilot e opt nb clickNext) =
        replicate k (selectSequence opt) @ (if clickNext then [nextSequence nb] else [])
      \<and> verifications (handleAutoPilot e opt nb clickNext) = framesCaptured e 0 k
      \<and> AddLog (FailedToVerify 5) \<notin> set (handleAutoPilot e opt nb clickNext))
   \<and> ((\<forall>j \<in> {1..k}. verifyCapture e j \<noteq> None) \<longrightarrow> framesCaptured e 0 k = k)"
proof (intro conjI impI)
  assume never: "\<forall>j \<in> {1..5}. \<not> confirmsAt e j"
  obtain v evs where loop: "autoPilotLoop e opt 0 False = (v, evs)"
    by (cases "autoPilotLoop e opt 0 False")
  from never have "\<forall>j. 0 < j \<and> j \<le> 5 \<longrightarrow> \<not> confirmsAt e j" by auto
  from autoPilotLoop_never_confirmed [OF _ this, of opt] loop
  have v: "v = False" and d: "dispatches evs = replicate 5 (selectSequence opt)"
    and n: "verifications evs = framesCaptured e 0 5"
    by simp_all
  have h: "handleAutoPilot e opt nb clickNext =
             [AddLog (TargetIdentified (take 30 (opt_text opt)))] @ evs @ [AddLog (FailedToVerify 5)]"
    by (simp add: handleAutoPilot_def loop v)
  show "dispatches (handleAutoPilot e opt nb clickNext) = replicate 5 (selectSequence opt)"
    by (simp add: h dispatches_append d)
  show "verifications (handleAutoPilot e opt nb clickNext) = framesCaptured e 0 5"
    by (simp add: h verifications_append n)
  show "AddLog (FailedToVerify 5) \<in> set (handleAutoPilot e opt nb clickNext)"
    by (simp add: h)
  show "nextSequence nb \<notin> set (dispatches (handleAutoPilot e opt nb clickNext))"
    using select_ne_next [of opt nb] by (auto simp: h dispatches_append d)
next
  assume "k \<in> {1..5} \<and> (\<forall>j \<in> {1..<k}. \<not> confirmsAt e j) \<and> confirmsAt e k"
  then have k: "0 < k" "k \<le> 5" and before: "\<forall>j. 0 < j \<and> j < k \<longrightarrow> \<not> confirmsAt e j"
    and at: "confirmsAt e k"
    by auto
  obtain v evs where loop: "autoPilotLoop e opt 0 False = (v, evs)"
    by (cases "autoPilotLoop e opt 0 False")
  from autoPilotLoop_first_confirmed [OF k before at, of opt] loop
  have v: "v = True" and d: "dispatches evs = replicate k (selectSequence opt)"
    and n: "verifications evs = framesCaptured e 0 k"
    by simp_all
  have h: "handleAutoPilot e opt nb clickNext =
             [AddLog (TargetIdentified (take 30 (opt_text opt)))] @ evs @
             (if clickNext then [AddLog ProceedingToNext, PostMessage (nextSequence nb)] else [])"
    by (simp add: handleAutoPilot_def loop v)
  from autoPilotLoop_events [of e opt 0 False] loop
  have "\<forall>ev \<in> set evs. selectionEvent opt ev" by simp
  from selectionEvent_logs [OF this, of 5]
  have nolog: "AddLog (FailedToVerify 5) \<notin> set evs" by simp
  show "dispatches (handleAutoPilot e opt nb clickNext) =
        replicate k (selectSequence opt) @ (if clickNext then [nextSequence nb] else [])"
    by (simp add: h dispatches_append d)
  show "verifications (handleAutoPilot e opt nb clickNext) = framesCaptured e 0 k"
    by (simp add: h verifications_append n)
  show "AddLog (FailedToVerify 5) \<notin> set (handleAutoPilot e opt nb clickNext)"
    using nolog by (simp add: h)
next
  assume "\<forall>j \<in> {1..k}. verifyCapture e j \<noteq> None"
  then show "framesCaptured e 0 k = k" by (rule framesCaptured_all)
qed

theorem verification_loop_attempts_witness:
  "dispatches (handleAutoPilot neverSelectedEnv optionFour None True)
     = replicate 5 (selectSequence optionFour)
   \<and> verifications (handleAutoPilot neverSelectedEnv optionFour None True) = 5
   \<and> AddLog (FailedToVerify 5) \<in> set (handleAutoPilot neverSelectedEnv optionFour None True)
   \<and> dispatches (handleAutoPilot demoEnv optionFour None True)
     = replicate 3 (selectSequence optionFour) @ [nextSequence None]
   \<and> verifications (handleAutoPilot demoEnv optionFour None True) = 3"
proof -
  have never: "\<forall>j \<in> {1..5}. \<not> confirmsAt neverSelectedEnv j"
    by (simp add: confirmsAt_def neverSelectedEnv_def demoEnv_def)
  have frames5: "\<forall>j \<in> {1..5}. verifyCapture neverSelectedEnv j \<noteq> None"
    by (simp add: neverSelectedEnv_def demoEnv_def)
  have third: "3 \<in> {1..5::nat} \<and> (\<forall>j \<in> {1..<3}. \<not> confirmsAt demoEnv j) \<and> confirmsAt demoEnv 3"
    by (simp add: confirmsAt_def demoEnv_def)
  have frames3: "\<forall>j \<in> {1..3}. verifyCapture demoEnv j \<noteq> None"
    by (simp add: demoEnv_def)
  from verification_loop_attempts [of neverSelectedEnv optionFour None True 5]
       verification_loop_attempts [of demoEnv optionFour None True 3]
       never frames5 third frames3
  show ?thesis by simp
qed

text \<open>
  Claim C3, as the specification states it, fails when the frame cannot be re-captured:
  the five attempts still dispatch, but no verification call is made.
\<close>

theorem verification_without_frame_counterexample:
  "length (dispatches (handleAutoPilot noFrameEnv optionFour None True)) = 5
   \<and> verifications (handleAutoPilot noFrameEnv optionFour None True) = 0"
proof -
  have never: "\<forall>j. 0 < j \<and> j \<le> 5 \<longrightarrow> \<not> confirmsAt noFrameEnv j"
    by (simp add: confirmsAt_def noFrameEnv_def demoEnv_def)
  have nf: "framesCaptured noFrameEnv 0 5 = 0"
    by (simp add: framesCaptured_def noFrameEnv_def demoEnv_def)
  obtain v evs where loop: "autoPilotLoop noFrameEnv optionFour 0 False = (v, evs)"
    by (cases "autoPilotLoop noFrameEnv optionFour 0 False")
  from autoPilotLoop_never_confirmed [OF _ never, of optionFour] loop nf
  have "v = False" "dispatches evs = replicate 5 (selectSequence optionFour)"
    "verifications evs = 0"
    by simp_all
  then show ?thesis
    by (simp add: handleAutoPilot_def loop dispatches_append verifications_append)
qed


section \<open>One analysis: confidence gate and quota fail-safe\<close>

lemma handleAutoPilot_counts:
  "escalations (handleAutoPilot e opt nb clickNext) = 0
   \<and> analyzerCalls (handleAutoPilot e opt nb clickNext) = 0"
proof -
  obtain v evs where loop: "autoPilotLoop e opt 0 False = (v, evs)"
    by (cases "autoPilotLoop e opt 0 False")
  from autoPilotLoop_events [of e opt 0 False] loop
  have "\<forall>ev \<in> set evs. selectionEvent opt ev" by simp
  from selectionEvent_counts [OF this] show ?thesis
    by (simp add: handleAutoPilot_def loop escalations_append analyzerCalls_append)
qed

lemma analyzeScreenFrame_counts:
  assumes "analyzeScreenFrame e name progress ctx = (result, genEvents)"
  shows "dispatches genEvents = [] \<and> verifications genEvents = 0
         \<and> escalations genEvents = 0 \<and> analyzerCalls genEvents = 0"
  using analyzeScreenFrame_quiet [of e name progress ctx] assms
  by (intro quiet_counts) simp

lemma reportResult_counts:
  assumes "reportResult cfg img result st = (st', reportEvents)"
  shows "dispatches reportEvents = [] \<and> verifications reportEvents = 0
         \<and> escalations reportEvents = 0 \<and> analyzerCalls reportEvents = 0"
  using assms by (auto simp: reportResult_def Let_def split: if_splits)

lemma autoSelectArm_counts:
  "escalations (autoSelectArm cfg e result) = 0 \<and> analyzerCalls (autoSelectArm cfg e result) = 0"
  using handleAutoPilot_counts [of e _ "nextButton result" "autoNext cfg"]
  by (simp add: autoSelectArm_def split: option.splits)

lemma performAnalysis_events:
  assumes "truthy (apiKey cfg)"
    and "analyzeScreenFrame e (modelName cfg) (debugMode cfg) (externalContext cfg)
           = (result, genEvents)"
  shows "snd (performAnalysis cfg e img flash st) =
           ((if \<not> simplifiedMode cfg \<and> flash then [Flash] else [])
             @ [AddLog InitiatingAnalysis]
             @ (if debugMode cfg then [AddLog InitiatingOcr] else [])
             @ [DetectText img, AnalyzeScreenFrame img])
           @ genEvents
           @ snd (reportResult cfg img result
                   (if stopDuringAnalysis e then stopAutomation (st\<lparr>processingRef := True\<rparr>)
                    else st\<lparr>processingRef := True\<rparr>))
           @ autoSelectArm cfg e result @ [AddLog AnalysisComplete]"
  using assms by (simp add: performAnalysis_def Let_def split: prod.splits)

text \<open>
  Claim C4. With auto-select enabled, whenever the analyzer's result has a question and the
  first option marked correct has a confidence score below the configured threshold,
  the analysis logs the low-confidence abort and dispatches no action sequence (and
  makes no verification call).
\<close>

theorem low_confidence_aborts:
  assumes "truthy (apiKey cfg)" and "autoSelect cfg"
    and r: "analyzeScreenFrame e (modelName cfg) (debugMode cfg) (externalContext cfg)
              = (result, genEvents)"
    and "hasQuestion result" and "options result = Some opts"
    and "find isCorrect opts = Some correctOption"
    and "confidenceScore correctOption < confidenceThreshold cfg"
  shows "dispatches (snd (performAnalysis cfg e img flash st)) = []
    \<and> verifications (snd (performAnalysis cfg e img flash st)) = 0
    \<and> AddLog (ConfidenceTooLow (confidenceScore correctOption) (confidenceThreshold cfg))
        \<in> set (snd (performAnalysis cfg e img flash st))"
proof -
  have arm: "autoSelectArm cfg e result =
               [AddLog (ConfidenceTooLow (confidenceScore correctOption) (confidenceThreshold cfg))]"
    using assms by (simp add: autoSelectArm_def)
  obtain st' reportEvents where rep: "reportResult cfg img result
       (if stopDuringAnalysis e then stopAutomation (st\<lparr>processingRef := True\<rparr>)
        else st\<lparr>processingRef := True\<rparr>) = (st', reportEvents)"
    by (cases "reportResult cfg img result
       (if stopDuringAnalysis e then stopAutomation (st\<lparr>processingRef := True\<rparr>)
        else st\<lparr>processingRef := True\<rparr>)")
  show ?thesis
    using analyzeScreenFrame_counts [OF r] reportResult_counts [OF rep]
    by (simp add: performAnalysis_events [OF assms(1) r] rep arm
          dispatches_append verifications_append)
qed


lemma performAnalysis_state:
  assumes "truthy (apiKey cfg)"
    and "analyzeScreenFrame e (modelName cfg) (debugMode cfg) (externalContext cfg)
           = (result, genEvents)"
  shows "fst (performAnalysis cfg e img flash st) =
           (fst (reportResult cfg img result
                   (if stopDuringAnalysis e then stopAutomation (st\<lparr>processingRef := True\<rparr>)
                    else st\<lparr>processingRef := True\<rparr>)))
             \<lparr>lastResult := Some result, processingRef := False\<rparr>"
  using assms by (simp add: performAnalysis_def Let_def split: prod.splits)

lemmas demo_defs =
  demoSettings_def demoSession_def demoEnv_def frameA_def optionFour_def optionThree_def
  questionA_def parsedA_def optionHalf_def parsedLow_def lowConfidenceEnv_def
  quotaMessage_def quotaEnv_def probeEnv_def neverSelectedEnv_def noFrameEnv_def

lemmas analyzer_eval =
  analyzeScreenFrame_def validateModelSupport_def attemptLoop.simps tryAttempt_def
  stripFences_def fence_def fromParsed_def errorResult_def probeResult_def
  FALLBACK_MODEL_def Let_def js_eval

theorem low_confidence_aborts_witness:
  "dispatches (snd (performAnalysis demoSettings lowConfidenceEnv frameA False demoSession)) = []
   \<and> AddLog (ConfidenceTooLow 0.5 0.7)
       \<in> set (snd (performAnalysis demoSettings lowConfidenceEnv frameA False demoSession))"
proof -
  have r: "analyzeScreenFrame lowConfidenceEnv (modelName demoSettings) (debugMode demoSettings)
             (externalContext demoSettings)
           = (fromParsed parsedLow ''gemini-3-flash-preview'' 1,
              [GenerateContent ''gemini-3-flash-preview'' False])"
    by (simp add: analyzer_eval demo_defs)
  have k: "truthy (apiKey demoSettings)" and a: "autoSelect demoSettings"
    by (simp_all add: truthy_def demoSettings_def)
  have h: "hasQuestion (fromParsed parsedLow ''gemini-3-flash-preview'' 1)"
    and o: "options (fromParsed parsedLow ''gemini-3-flash-preview'' 1)
              = Some [optionThree, optionHalf]"
    by (simp_all add: fromParsed_def demo_defs)
  have f: "find isCorrect [optionThree, optionHalf] = Some optionHalf"
    by (simp add: demo_defs)
  have c: "confidenceScore optionHalf < confidenceThreshold demoSettings"
    by (simp add: demo_defs)
  from low_confidence_aborts [OF k a r h o f c, where st = demoSession and img = frameA and flash = False]
  show ?thesis by (simp add: optionHalf_def demoSettings_def)
qed

text \<open>
  Claim C7. Whenever the analyzer returns a result whose error text contains \<open>Quota\<close> or
  \<open>429\<close>, the analysis switches \<open>automationEnabled\<close> off, logs the error, and has called
  the analyzer exactly once.
\<close>

theorem quota_error_disables_automation:
  assumes "truthy (apiKey cfg)"
    and r: "analyzeScreenFrame e (modelName cfg) (debugMode cfg) (externalContext cfg)
              = (result, genEvents)"
    and "error result = Some msg"
    and "js_includes msg ''Quota'' \<or> js_includes msg ''429''"
  shows "automationEnabled (settings (fst (performAnalysis cfg e img flash st))) = False
    \<and> (\<exists>model info. AddLog (GeminiError model msg info)
           \<in> set (snd (performAnalysis cfg e img flash st)))
    \<and> analyzerCalls (snd (performAnalysis cfg e img flash st)) = 1"
proof -
  define st2 where "st2 = (if stopDuringAnalysis e then stopAutomation (st\<lparr>processingRef := True\<rparr>)
                           else st\<lparr>processingRef := True\<rparr>)"
  from assms(4) have "msg \<noteq> []" by (cases msg) auto
  with assms(3) have t: "truthy (error result)" by (simp add: truthy_def)
  obtain model info where rep: "reportResult cfg img result st2 =
      (st2\<lparr>settings := (settings st2)\<lparr>automationEnabled := False\<rparr>\<rparr>,
       [AddLog (GeminiError model msg info), AddLog BillingRecommendation])"
    using t assms(3,4) by (simp add: reportResult_def Let_def)
  have s: "fst (performAnalysis cfg e img flash st) =
             (fst (reportResult cfg img result st2))\<lparr>lastResult := Some result, processingRef := False\<rparr>"
    unfolding st2_def by (rule performAnalysis_state [OF assms(1) r])
  have ev: "snd (performAnalysis cfg e img flash st) =
           ((if \<not> simplifiedMode cfg \<and> flash then [Flash] else [])
             @ [AddLog InitiatingAnalysis]
             @ (if debugMode cfg then [AddLog InitiatingOcr] else [])
             @ [DetectText img, AnalyzeScreenFrame img])
           @ genEvents @ snd (reportResult cfg img result st2)
           @ autoSelectArm cfg e result @ [AddLog AnalysisComplete]"
    unfolding st2_def by (rule performAnalysis_events [OF assms(1) r])
  have 1: "automationEnabled (settings (fst (performAnalysis cfg e img flash st))) = False"
    by (simp add: s rep)
  have 2: "AddLog (GeminiError model msg info) \<in> set (snd (performAnalysis cfg e img flash st))"
    by (simp add: ev rep)
  have 3: "analyzerCalls (snd (performAnalysis cfg e img flash st)) = 1"
    using analyzeScreenFrame_counts [OF r] autoSelectArm_counts [of cfg e result]
    by (simp add: ev rep analyzerCalls_append)
  from 1 2 3 show ?thesis by blast
qed

theorem quota_error_disables_automation_witness:
  "automationEnabled (settings (fst (performAnalysis demoSettings quotaEnv frameA False demoSession)))
     = False
   \<and> (\<exists>model info. AddLog (GeminiError model quotaMessage info)
         \<in> set (snd (performAnalysis demoSettings quotaEnv frameA False demoSession)))
   \<and> analyzerCalls (snd (performAnalysis demoSettings quotaEnv frameA False demoSession)) = 1
   \<and> automationEnabled (settings demoSession)"
proof -
  have r: "analyzeScreenFrame quotaEnv (modelName demoSettings) (debugMode demoSettings)
             (externalContext demoSettings)
           = (errorResult quotaMessage,
              [GenerateContent ''gemini-3-flash-preview'' False, Wait 1000,
               GenerateContent ''gemini-3-flash-preview'' False, Wait 2000,
               GenerateContent ''gemini-flash-lite-latest'' True])"
    by (simp add: analyzer_eval demo_defs)
  have k: "truthy (apiKey demoSettings)"
    by (simp add: truthy_def demoSettings_def)
  have m: "error (errorResult quotaMessage) = Some quotaMessage"
    by (simp add: errorResult_def)
  have q: "js_includes quotaMessage ''Quota'' \<or> js_includes quotaMessage ''429''"
    by (simp add: quotaMessage_def)
  from quota_error_disables_automation [OF k r m q, where st = demoSession and img = frameA and flash = False]
  show ?thesis by (simp add: demoSession_def demoSettings_def)
qed


section \<open>The diagnostic probe\<close>

lemma attemptLoop_probe:
  assumes a1: "isl (tryAttempt e m 1)" and a2: "isl (tryAttempt e m 2)"
    and g: "generate e 3 = GenReturns (Some raw)" and t: "trim raw \<noteq> []"
  shows "fst (attemptLoop e progress m 0) =
           Inr (probeResult (trim raw) (if m \<noteq> FALLBACK_MODEL then FALLBACK_MODEL else m) 3)"
proof -
  obtain msg1 where t1: "tryAttempt e m 1 = Inl msg1"
    using a1 by (cases "tryAttempt e m 1") auto
  obtain msg2 where t2: "tryAttempt e m 2 = Inl msg2"
    using a2 by (cases "tryAttempt e m 2") auto
  have t3: "tryAttempt e m' 3 = Inr (probeResult (trim raw) m' 3)" for m'
    using g t by (simp add: tryAttempt_def)
  have l2: "fst (attemptLoop e progress m' 2) = Inr (probeResult (trim raw) m' 3)" for m'
    unfolding attemptLoop.simps [of e progress m' 2] by (simp add: t3 Let_def)
  have l1: "fst (attemptLoop e progress m 1) =
              Inr (probeResult (trim raw) (if m \<noteq> FALLBACK_MODEL then FALLBACK_MODEL else m) 3)"
    unfolding attemptLoop.simps [of e progress m 1]
    using l2 [of FALLBACK_MODEL] l2 [of m] t2
    by (auto simp: Let_def numeral_2_eq_2 split: prod.splits)
  show ?thesis
    unfolding attemptLoop.simps [of e progress m 0]
    using l1 t1 by (auto simp: Let_def split: prod.splits)
qed

lemma analyzeScreenFrame_probe:
  assumes "validateModelSupport name ctx = None"
    and "isl (tryAttempt e name 1)" and "isl (tryAttempt e name 2)"
    and "generate e 3 = GenReturns (Some raw)" and "trim raw \<noteq> []"
  shows "fst (analyzeScreenFrame e name progress ctx) =
           probeResult (trim raw) (if name \<noteq> FALLBACK_MODEL then FALLBACK_MODEL else name) 3"
proof -
  obtain r evs where al: "attemptLoop e progress name 0 = (r, evs)"
    by (cases "attemptLoop e progress name 0")
  from attemptLoop_probe [OF assms(2-5), of progress] al
  have "r = Inr (probeResult (trim raw)
                  (if name \<noteq> FALLBACK_MODEL then FALLBACK_MODEL else name) 3)"
    by simp
  then show ?thesis
    using assms(1) by (simp add: analyzeScreenFrame_def al)
qed

text \<open>
  Claim C10. When the first two attempts of \<open>analyzeScreenFrame\<close> fail and the model returns
  non-empty text at the third attempt, the transcription-only probe, the result has
  \<open>hasQuestion\<close> set while its question list and its option list are empty; an analysis
  that gets this result with auto-select enabled dispatches nothing and logs that no
  clear answer was identified.
\<close>

theorem probe_result_has_no_question_record:
  assumes "validateModelSupport (modelName cfg) (externalContext cfg) = None"
    and "isl (tryAttempt e (modelName cfg) 1)" and "isl (tryAttempt e (modelName cfg) 2)"
    and "generate e 3 = GenReturns (Some raw)" and "trim raw \<noteq> []"
  shows "hasQuestion (fst (analyzeScreenFrame e (modelName cfg) (debugMode cfg) (externalContext cfg)))
    \<and> questions (fst (analyzeScreenFrame e (modelName cfg) (debugMode cfg) (externalContext cfg))) = []
    \<and> options (fst (analyzeScreenFrame e (modelName cfg) (debugMode cfg) (externalContext cfg))) = Some []
    \<and> error (fst (analyzeScreenFrame e (modelName cfg) (debugMode cfg) (externalContext cfg))) = None
    \<and> (truthy (apiKey cfg) \<and> autoSelect cfg \<longrightarrow>
         dispatches (snd (performAnalysis cfg e img flash st)) = []
         \<and> AddLog NoClearAnswer \<in> set (snd (performAnalysis cfg e img flash st)))"
proof -
  obtain result genEvents where r:
    "analyzeScreenFrame e (modelName cfg) (debugMode cfg) (externalContext cfg) = (result, genEvents)"
    by (cases "analyzeScreenFrame e (modelName cfg) (debugMode cfg) (externalContext cfg)")
  from analyzeScreenFrame_probe [OF assms, of "debugMode cfg"] r
  have res: "result = probeResult (trim raw)
      (if modelName cfg \<noteq> FALLBACK_MODEL then FALLBACK_MODEL else modelName cfg) 3"
    by simp
  then have h: "hasQuestion result" and q: "questions result = []"
    and o: "options result = Some []" and er: "error result = None"
    by (simp_all add: probeResult_def)
  have sel: "truthy (apiKey cfg) \<and> autoSelect cfg \<longrightarrow>
         dispatches (snd (performAnalysis cfg e img flash st)) = []
         \<and> AddLog NoClearAnswer \<in> set (snd (performAnalysis cfg e img flash st))"
  proof
    assume ka: "truthy (apiKey cfg) \<and> autoSelect cfg"
    then have arm: "autoSelectArm cfg e result = [AddLog NoClearAnswer]"
      using h o by (simp add: autoSelectArm_def)
    obtain st' reportEvents where rep: "reportResult cfg img result
       (if stopDuringAnalysis e then stopAutomation (st\<lparr>processingRef := True\<rparr>)
        else st\<lparr>processingRef := True\<rparr>) = (st', reportEvents)"
      by (cases "reportResult cfg img result
       (if stopDuringAnalysis e then stopAutomation (st\<lparr>processingRef := True\<rparr>)
        else st\<lparr>processingRef := True\<rparr>)")
    from ka have k: "truthy (apiKey cfg)" by simp
    show "dispatches (snd (performAnalysis cfg e img flash st)) = []
         \<and> AddLog NoClearAnswer \<in> set (snd (performAnalysis cfg e img flash st))"
      using analyzeScreenFrame_counts [OF r] reportResult_counts [OF rep]
      by (simp add: performAnalysis_events [OF k r] rep arm dispatches_append)
  qed
  from h q o er sel show ?thesis by (simp add: r)
qed

theorem probe_result_has_no_question_record_witness:
  "hasQuestion (fst (analyzeScreenFrame probeEnv (modelName demoSettings) (debugMode demoSettings)
      (externalContext demoSettings)))
   \<and> questions (fst (analyzeScreenFrame probeEnv (modelName demoSettings) (debugMode demoSettings)
      (externalContext demoSettings))) = []
   \<and> options (fst (analyzeScreenFrame probeEnv (modelName demoSettings) (debugMode demoSettings)
      (externalContext demoSettings))) = Some []
   \<and> dispatches (snd (performAnalysis demoSettings probeEnv frameA False demoSession)) = []
   \<and> AddLog NoClearAnswer \<in> set (snd (performAnalysis demoSettings probeEnv frameA False demoSession))"
proof -
  have v: "validateModelSupport (modelName demoSettings) (externalContext demoSettings) = None"
    by (simp add: validateModelSupport_def demoSettings_def)
  have a1: "isl (tryAttempt probeEnv (modelName demoSettings) 1)"
    and a2: "isl (tryAttempt probeEnv (modelName demoSettings) 2)"
    by (simp_all add: tryAttempt_def probeEnv_def demoEnv_def)
  have g: "generate probeEnv 3 = GenReturns (Some ''What is 2+2?'')"
    by (simp add: probeEnv_def demoEnv_def)
  have t: "trim ''What is 2+2?'' \<noteq> []"
    by (simp add: js_eval)
  have ka: "truthy (apiKey demoSettings) \<and> autoSelect demoSettings"
    by (simp add: truthy_def demoSettings_def)
  from probe_result_has_no_question_record [OF v a1 a2 g t, where st = demoSession and img = frameA
         and flash = False] ka
  show ?thesis by simp
qed


section \<open>The scheduling loop\<close>

lemma rawChange_iff:
  "(\<not> isTextSubset lastText txt \<and> \<not> isTextSubset txt lastText
     \<and> numLess (fl (calculateTextSimilarity txt lastText)) (adaptiveThreshold s)
     \<and> length txt > 15)
   = isRawCandidate s lastText txt"
  by (simp add: isRawCandidate_def specThreshold_eq)

lemma hybridGate_eq:
  "hybridGate cfg rawText st =
     (let txt = normalizeOcr rawText;
          debugEvents = (if debugMode cfg
                         then [AddLog (DebugOcr (take 15 txt) (take 15 (lastOcrTextRef st))
                                 (fl (calculateTextSimilarity txt (lastOcrTextRef st)))
                                 (ocrStabilityCounterRef st))]
                         else [])
      in if isRawCandidate (smartScanSensitivity cfg) (lastOcrTextRef st) txt then
           if ocrStabilityCounterRef st + 1 \<ge> 3
           then (True, st\<lparr>lastOcrTextRef := txt, ocrStabilityCounterRef := 0\<rparr>, debugEvents)
           else (False, st\<lparr>ocrStabilityCounterRef := ocrStabilityCounterRef st + 1\<rparr>, debugEvents)
         else (False, st\<lparr>ocrStabilityCounterRef := 0\<rparr>, debugEvents))"
  unfolding hybridGate_def Let_def rawChange_iff by simp


lemma reportResult_keeps:
  "ocrStabilityCounterRef (fst (reportResult cfg img result st)) = ocrStabilityCounterRef st
   \<and> lastOcrTextRef (fst (reportResult cfg img result st)) = lastOcrTextRef st
   \<and> isAutomationRunningRef (fst (reportResult cfg img result st)) = isAutomationRunningRef st"
  by (simp add: reportResult_def Let_def)

lemma performAnalysis_keeps:
  "ocrStabilityCounterRef (fst (performAnalysis cfg e img flash st)) = ocrStabilityCounterRef st
   \<and> lastOcrTextRef (fst (performAnalysis cfg e img flash st)) = lastOcrTextRef st"
proof (cases "truthy (apiKey cfg)")
  case False
  then show ?thesis by (simp add: performAnalysis_def)
next
  case True
  obtain result genEvents where r:
    "analyzeScreenFrame e (modelName cfg) (debugMode cfg) (externalContext cfg) = (result, genEvents)"
    by (cases "analyzeScreenFrame e (modelName cfg) (debugMode cfg) (externalContext cfg)")
  show ?thesis
    by (simp add: performAnalysis_state [OF True r] reportResult_keeps stopAutomation_def)
qed

lemma performAnalysis_escalations:
  "escalations (snd (performAnalysis cfg e img flash st)) = 0"
proof (cases "truthy (apiKey cfg)")
  case False
  then show ?thesis by (simp add: performAnalysis_def)
next
  case True
  obtain result genEvents where r:
    "analyzeScreenFrame e (modelName cfg) (debugMode cfg) (externalContext cfg) = (result, genEvents)"
    by (cases "analyzeScreenFrame e (modelName cfg) (debugMode cfg) (externalContext cfg)")
  obtain st' reportEvents where rep: "reportResult cfg img result
       (if stopDuringAnalysis e then stopAutomation (st\<lparr>processingRef := True\<rparr>)
        else st\<lparr>processingRef := True\<rparr>) = (st', reportEvents)"
    by (cases "reportResult cfg img result
       (if stopDuringAnalysis e then stopAutomation (st\<lparr>processingRef := True\<rparr>)
        else st\<lparr>processingRef := True\<rparr>)")
  show ?thesis
    using analyzeScreenFrame_counts [OF r] reportResult_counts [OF rep]
      autoSelectArm_counts [of cfg e result]
    by (simp add: performAnalysis_events [OF True r] rep escalations_append)
qed

lemma checkAI_facts:
  "ocrStabilityCounterRef (fst (checkAI cfg e img st)) = ocrStabilityCounterRef st
   \<and> (triggerHybrid cfg \<longrightarrow> lastOcrTextRef (fst (checkAI cfg e img st)) = lastOcrTextRef st)
   \<and> escalations (snd (checkAI cfg e img st)) = 1"
  by (simp add: checkAI_def Let_def case_prod_unfold stopAutomation_def escalations_append
        performAnalysis_keeps performAnalysis_escalations)

lemma gate_tick:
  assumes g: "gateTick cfg stream e st"
  shows "ocrStabilityCounterRef (fst (runAutomationLoop cfg stream e st)) =
           (if isRawCandidate (smartScanSensitivity cfg) (lastOcrTextRef st) (observedText e)
               \<and> ocrStabilityCounterRef st + 1 < 3
            then ocrStabilityCounterRef st + 1 else 0)"
    and "escalations (snd (runAutomationLoop cfg stream e st)) =
           (if isRawCandidate (smartScanSensitivity cfg) (lastOcrTextRef st) (observedText e)
               \<and> 3 \<le> ocrStabilityCounterRef st + 1
            then 1 else 0)"
    and "lastOcrTextRef (fst (runAutomationLoop cfg stream e st)) =
           (if isRawCandidate (smartScanSensitivity cfg) (lastOcrTextRef st) (observedText e)
               \<and> 3 \<le> ocrStabilityCounterRef st + 1
            then observedText e else lastOcrTextRef st)"
    and "\<not> (isRawCandidate (smartScanSensitivity cfg) (lastOcrTextRef st) (observedText e)
            \<and> 3 \<le> ocrStabilityCounterRef st + 1) \<Longrightarrow>
         fst (runAutomationLoop cfg stream e st) =
           st\<lparr>ocrStabilityCounterRef :=
                (if isRawCandidate (smartScanSensitivity cfg) (lastOcrTextRef st) (observedText e)
                 then ocrStabilityCounterRef st + 1 else 0)\<rparr>"
proof -
  from g obtain img where img: "captured e = Some img" by (auto simp: gateTick_def)
  from g have flags: "isAutomationRunningRef st" "stream" "\<not> triggerTime cfg" "triggerSmart cfg"
    "triggerHybrid cfg" "\<not> processingRef st"
    by (simp_all add: gateTick_def)
  note defs = runAutomationLoop_def tickWork_def hybridGate_eq observedText_def Let_def
    case_prod_unfold escalations_append
  show "ocrStabilityCounterRef (fst (runAutomationLoop cfg stream e st)) =
           (if isRawCandidate (smartScanSensitivity cfg) (lastOcrTextRef st) (observedText e)
               \<and> ocrStabilityCounterRef st + 1 < 3
            then ocrStabilityCounterRef st + 1 else 0)"
    using flags img checkAI_facts [of cfg e img] by (simp add: defs)
  show "escalations (snd (runAutomationLoop cfg stream e st)) =
           (if isRawCandidate (smartScanSensitivity cfg) (lastOcrTextRef st) (observedText e)
               \<and> 3 \<le> ocrStabilityCounterRef st + 1
            then 1 else 0)"
    using flags img checkAI_facts [of cfg e img] by (simp add: defs)
  show "lastOcrTextRef (fst (runAutomationLoop cfg stream e st)) =
           (if isRawCandidate (smartScanSensitivity cfg) (lastOcrTextRef st) (observedText e)
               \<and> 3 \<le> ocrStabilityCounterRef st + 1
            then observedText e else lastOcrTextRef st)"
    using flags img checkAI_facts [of cfg e img] by (simp add: defs)
  show "\<not> (isRawCandidate (smartScanSensitivity cfg) (lastOcrTextRef st) (observedText e)
            \<and> 3 \<le> ocrStabilityCounterRef st + 1) \<Longrightarrow>
         fst (runAutomationLoop cfg stream e st) =
           st\<lparr>ocrStabilityCounterRef :=
                (if isRawCandidate (smartScanSensitivity cfg) (lastOcrTextRef st) (observedText e)
                 then ocrStabilityCounterRef st + 1 else 0)\<rparr>"
    using flags img by (auto simp: defs)
qed

lemma runTicks_fst:
  "fst (runTicks cfg stream (e # es) st) = fst (runTicks cfg stream es (fst (runAutomationLoop cfg stream e st)))"
  by (simp add: case_prod_unfold Let_def)

lemma runTicks_escalations:
  "escalations (snd (runTicks cfg stream (e # es) st)) =
     escalations (snd (runAutomationLoop cfg stream e st))
     + escalations (snd (runTicks cfg stream es (fst (runAutomationLoop cfg stream e st))))"
  by (simp add: case_prod_unfold Let_def escalations_append)

declare runTicks.simps(2) [simp del]

lemma candidateRun_counts:
  "candidateRun cfg stream es st \<Longrightarrow> ocrStabilityCounterRef st < 3 \<Longrightarrow>
   escalations (snd (runTicks cfg stream es st)) = (ocrStabilityCounterRef st + length es) div 3
   \<and> ocrStabilityCounterRef (fst (runTicks cfg stream es st))
       = (ocrStabilityCounterRef st + length es) mod 3"
proof (induction es arbitrary: st)
  case Nil
  then show ?case by simp
next
  case (Cons e es)
  let ?st1 = "fst (runAutomationLoop cfg stream e st)"
  from Cons.prems have g: "gateTick cfg stream e st"
    and c: "isRawCandidate (smartScanSensitivity cfg) (lastOcrTextRef st) (observedText e)"
    and rest: "candidateRun cfg stream es ?st1"
    by simp_all
  have c1: "ocrStabilityCounterRef ?st1 =
              (if ocrStabilityCounterRef st + 1 < 3 then ocrStabilityCounterRef st + 1 else 0)"
    using gate_tick(1) [OF g] c by simp
  have e1: "escalations (snd (runAutomationLoop cfg stream e st)) =
              (if 3 \<le> ocrStabilityCounterRef st + 1 then 1 else 0)"
    using gate_tick(2) [OF g] c by simp
  have lt: "ocrStabilityCounterRef ?st1 < 3" using c1 by simp
  note IH = Cons.IH [OF rest lt]
  show ?case
  proof (cases "ocrStabilityCounterRef st + 1 < 3")
    case True
    with c1 e1 IH show ?thesis
      by (simp add: runTicks_fst runTicks_escalations)
  next
    case False
    with Cons.prems(2) have two: "ocrStabilityCounterRef st = 2" by simp
    with c1 e1 IH show ?thesis
      by (simp add: runTicks_fst runTicks_escalations)
  qed
qed


lemma observedText_demoEnv:
  "observedText demoEnv = ''question # which planet is known as the red planet''"
  by (simp add: observedText_def normalizeOcr_def detectText_def demoEnv_def js_eval)

lemma observedText_shortTextEnv: "observedText shortTextEnv = ''loading''"
  by (simp add: observedText_def normalizeOcr_def detectText_def shortTextEnv_def demoEnv_def js_eval)


lemma firstCall_append:
  "firstCall (xs @ ys) = (case firstCall xs of None \<Rightarrow> firstCall ys | Some c \<Rightarrow> Some c)"
  by (induction xs rule: firstCall.induct) simp_all

lemma performAnalysis_firstCall:
  "firstCall (snd (performAnalysis cfg e img flash st)) = fst (analysisStart cfg img st)"
proof (cases "truthy (apiKey cfg)")
  case False
  then show ?thesis by (simp add: performAnalysis_def analysisStart_def)
next
  case True
  obtain result genEvents where r:
    "analyzeScreenFrame e (modelName cfg) (debugMode cfg) (externalContext cfg) = (result, genEvents)"
    by (cases "analyzeScreenFrame e (modelName cfg) (debugMode cfg) (externalContext cfg)")
  show ?thesis
    using True by (simp add: performAnalysis_events [OF True r] analysisStart_def firstCall_append)
qed

lemma hybridGate_firstCall: "firstCall (snd (snd (hybridGate cfg rawText st))) = None"
  by (simp add: hybridGate_def Let_def)

text \<open>
  The call at which \<open>tickStart\<close> stops is the first call to the ChangeOracle or to the
  analyzer in the trace of the whole tick.
\<close>

lemma tickStart_firstCall:
  "fst (tickStart cfg stream e st) = firstCall (snd (runAutomationLoop cfg stream e st))"
  by (simp add: tickStart_def runAutomationLoop_def tickWork_def checkAI_def Let_def
        case_prod_unfold firstCall_append performAnalysis_firstCall hybridGate_firstCall
      split: option.splits)






lemmas text_eval = js_eval clean_def mkSet_def setAdd_def has_def Let_def

lemma observedText_coveredEnv: "observedText coveredEnv = ''what is the capital of france''"
  by (simp add: observedText_def normalizeOcr_def detectText_def coveredEnv_def demoEnv_def js_eval)

lemma observedText_similarEnv: "observedText similarEnv = ''what is the capital town of france''"
  by (simp add: observedText_def normalizeOcr_def detectText_def similarEnv_def demoEnv_def js_eval)

lemma observedText_pausedEnv: "observedText pausedEnv = []"
  by (simp add: observedText_def normalizeOcr_def detectText_def pausedEnv_def demoEnv_def js_eval)

lemma normalizeOcr_boundaryText: "normalizeOcr boundaryText = boundaryText"
  by (simp add: normalizeOcr_def boundaryText_def js_eval)

lemma observedText_boundaryEnv: "observedText boundaryEnv = boundaryText"
proof -
  have "trim boundaryText = boundaryText"
    by (simp add: boundaryText_def js_eval)
  then show ?thesis
    by (simp add: observedText_def detectText_def boundaryEnv_def demoEnv_def
          normalizeOcr_boundaryText)
qed

lemma question_against_reference:
  "\<not> isTextSubset referenceText (observedText demoEnv)"
  "\<not> isTextSubset (observedText demoEnv) referenceText"
  "calculateTextSimilarity (observedText demoEnv) referenceText = 1 / 7"
  "length (observedText demoEnv) > 15"
  by (simp_all add: observedText_demoEnv referenceText_def isTextSubset_def
        calculateTextSimilarity_def text_eval)

lemma covered_against_reference:
  "isTextSubset referenceText (observedText coveredEnv)"
  by (simp add: observedText_coveredEnv referenceText_def isTextSubset_def text_eval)

lemma similar_against_reference:
  "\<not> isTextSubset referenceText (observedText similarEnv)"
  "\<not> isTextSubset (observedText similarEnv) referenceText"
  "calculateTextSimilarity (observedText similarEnv) referenceText = 3 / 4"
  "length (observedText similarEnv) > 15"
  by (simp_all add: observedText_similarEnv referenceText_def isTextSubset_def
        calculateTextSimilarity_def text_eval)

lemma short_against_reference:
  "\<not> isTextSubset referenceText (observedText shortTextEnv)"
  "\<not> isTextSubset (observedText shortTextEnv) referenceText"
  "calculateTextSimilarity (observedText shortTextEnv) referenceText = 0"
  "length (observedText shortTextEnv) = 7"
  by (simp_all add: observedText_shortTextEnv referenceText_def isTextSubset_def
        calculateTextSimilarity_def text_eval)

lemma candidate_after_reference:
  "isRawCandidate (Finite 50) referenceText (observedText demoEnv)"
  using question_against_reference
  by (simp add: isRawCandidate_def specThreshold_eq adaptiveThreshold_50) (simp add: fl_eval)

lemma words_distinct: "distinct (currentOnlyWords @ sharedWords @ referenceOnlyWords)"
  by (simp add: currentOnlyWords_def sharedWords_def referenceOnlyWords_def)

lemma split_boundaryText: "js_split (toLowerCase boundaryText) = currentOnlyWords @ sharedWords"
  by (simp add: boundaryText_def currentOnlyWords_def sharedWords_def js_eval)

lemma split_boundaryReference:
  "js_split (toLowerCase boundaryReference) = sharedWords @ referenceOnlyWords"
  by (simp add: boundaryReference_def referenceOnlyWords_def sharedWords_def js_eval)

lemma jaccard_of_lists:
  assumes "distinct (xs @ ys @ zs)"
  shows "real (card (set (xs @ ys) \<inter> set (ys @ zs)))
           / real (card (set (xs @ ys) \<union> set (ys @ zs)))
         = real (length ys) / real (length (xs @ ys @ zs))"
proof -
  from assms have "set (xs @ ys) \<inter> set (ys @ zs) = set ys" by auto
  moreover from assms have "distinct ys" by simp
  ultimately have i: "card (set (xs @ ys) \<inter> set (ys @ zs)) = length ys"
    by (simp add: distinct_card)
  have "set (xs @ ys) \<union> set (ys @ zs) = set (xs @ ys @ zs)" by auto
  with assms have u: "card (set (xs @ ys) \<union> set (ys @ zs)) = length (xs @ ys @ zs)"
    by (simp only: distinct_card)
  show ?thesis by (simp only: i u)
qed

lemma similarity_boundary: "calculateTextSimilarity boundaryText boundaryReference = 29 / 100"
proof -
  have ne: "boundaryText \<noteq> []" "boundaryReference \<noteq> []"
    by (simp_all add: boundaryText_def boundaryReference_def)
  have len: "real (length sharedWords) = 29"
    "real (length (currentOnlyWords @ sharedWords @ referenceOnlyWords)) = 100"
    by (simp_all add: currentOnlyWords_def sharedWords_def referenceOnlyWords_def)
  show ?thesis
    unfolding similarity_as_cards [OF ne] tokenSet_def split_boundaryText
      split_boundaryReference jaccard_of_lists [OF words_distinct] len ..
qed

lemma subset_boundary:
  "\<not> isTextSubset boundaryReference boundaryText"
  "\<not> isTextSubset boundaryText boundaryReference"
proof -
  have c1: "clean boundaryText = [''alpha'', ''bravo'']"
    by (simp add: boundaryText_def clean_def js_eval)
  have c2: "clean boundaryReference = [''yankee'', ''zulu'']"
    by (simp add: boundaryReference_def clean_def js_eval)
  have ne: "boundaryText \<noteq> []" "boundaryReference \<noteq> []"
    by (simp_all add: boundaryText_def boundaryReference_def)
  show "\<not> isTextSubset boundaryReference boundaryText"
    using ne by (simp add: isTextSubset_def c1 c2 mkSet_def setAdd_def has_def)
  show "\<not> isTextSubset boundaryText boundaryReference"
    using ne by (simp add: isTextSubset_def c1 c2 mkSet_def setAdd_def has_def)
qed

lemma length_boundaryText: "length boundaryText = 197"
  by (simp add: boundaryText_def)

lemma candidate_at_boundary: "isRawCandidate (Finite 15) boundaryReference boundaryText"
  using subset_boundary
  by (simp add: isRawCandidate_def specThreshold_eq adaptiveThreshold_15 similarity_boundary
        length_boundaryText)
     (simp add: fl_eval)


text \<open>
  Claim C2, amended. The hybrid gate treats a text as a raw candidate change (it escalates
  or leaves a non-zero stability counter) if and only if neither subset test holds, the
  similarity to the reference text is below the threshold and the normalized text is
  longer than 15 characters; the same holds for a whole tick in hybrid mode. The
  similarity and the threshold \<open>0.2 + 0.6 * (sensitivity / 100)\<close> are computed in the
  arithmetic of binary64 numbers, every operation rounding to the nearest number. The
  threshold is 0.5 at sensitivity 50, and at 100 and at 10 it is the number nearest to
  0.8 and to 0.26, which is also the number nearest to the exact value of the formula.
\<close>

theorem hybrid_candidate_criterion:
  "(fst (hybridGate cfg rawText st)
      \<or> ocrStabilityCounterRef (fst (snd (hybridGate cfg rawText st))) \<noteq> 0)
     = isRawCandidate (smartScanSensitivity cfg) (lastOcrTextRef st) (normalizeOcr rawText)
   \<and> (gateTick cfg stream e st \<longrightarrow>
        (escalations (snd (runAutomationLoop cfg stream e st)) \<noteq> 0
           \<or> ocrStabilityCounterRef (fst (runAutomationLoop cfg stream e st)) \<noteq> 0)
        = isRawCandidate (smartScanSensitivity cfg) (lastOcrTextRef st) (observedText e))
   \<and> adaptiveThreshold s = specThreshold s
   \<and> adaptiveThreshold (Finite 50) = Finite (1 / 2)
   \<and> adaptiveThreshold (Finite 100) = fl 0.8
   \<and> adaptiveThreshold (Finite 10) = fl 0.26
   \<and> adaptiveThreshold (Finite 50) = fl (exactThreshold 50)
   \<and> adaptiveThreshold (Finite 100) = fl (exactThreshold 100)
   \<and> adaptiveThreshold (Finite 10) = fl (exactThreshold 10)"
proof -
  have tick: "gateTick cfg stream e st \<longrightarrow>
        (escalations (snd (runAutomationLoop cfg stream e st)) \<noteq> 0
           \<or> ocrStabilityCounterRef (fst (runAutomationLoop cfg stream e st)) \<noteq> 0)
        = isRawCandidate (smartScanSensitivity cfg) (lastOcrTextRef st) (observedText e)"
  proof
    assume g: "gateTick cfg stream e st"
    show "(escalations (snd (runAutomationLoop cfg stream e st)) \<noteq> 0
           \<or> ocrStabilityCounterRef (fst (runAutomationLoop cfg stream e st)) \<noteq> 0)
        = isRawCandidate (smartScanSensitivity cfg) (lastOcrTextRef st) (observedText e)"
      unfolding gate_tick(1) [OF g] gate_tick(2) [OF g] by auto
  qed
  have gate: "(fst (hybridGate cfg rawText st)
      \<or> ocrStabilityCounterRef (fst (snd (hybridGate cfg rawText st))) \<noteq> 0)
     = isRawCandidate (smartScanSensitivity cfg) (lastOcrTextRef st) (normalizeOcr rawText)"
    by (simp add: hybridGate_eq Let_def)
  have half: "fl (1 / 2) = Finite (1 / 2)"
    by (simp add: fl_eval)
  have four_fifths: "fl (4 / 5) = Finite (3602879701896397 / 2 ^ 52)"
    by (simp add: fl_eval)
  have thirteen_fiftieths: "fl (13 / 50) = Finite (1170935903116329 / 2 ^ 52)"
    by (simp add: fl_eval)
  have thr: "adaptiveThreshold (Finite 50) = Finite (1 / 2)
     \<and> adaptiveThreshold (Finite 100) = fl 0.8
     \<and> adaptiveThreshold (Finite 10) = fl 0.26
     \<and> adaptiveThreshold (Finite 50) = fl (exactThreshold 50)
     \<and> adaptiveThreshold (Finite 100) = fl (exactThreshold 100)
     \<and> adaptiveThreshold (Finite 10) = fl (exactThreshold 10)"
    by (simp add: adaptiveThreshold_50 adaptiveThreshold_100 adaptiveThreshold_10
          exactThreshold_def half four_fifths thirteen_fiftieths)
  from gate tick thr specThreshold_eq [of s, symmetric] show ?thesis by blast
qed

theorem hybrid_candidate_criterion_witness:
  "gateTick demoSettings True demoEnv referenceSession
   \<and> calculateTextSimilarity (observedText demoEnv) (lastOcrTextRef referenceSession) = 1 / 7
   \<and> isRawCandidate (smartScanSensitivity demoSettings) (lastOcrTextRef referenceSession)
        (observedText demoEnv)
   \<and> ocrStabilityCounterRef
        (fst (runAutomationLoop demoSettings True demoEnv referenceSession)) = 1
   \<and> gateTick demoSettings True coveredEnv referenceSession
   \<and> isTextSubset (lastOcrTextRef referenceSession) (observedText coveredEnv)
   \<and> ocrStabilityCounterRef
        (fst (runAutomationLoop demoSettings True coveredEnv referenceSession)) = 0
   \<and> gateTick demoSettings True similarEnv referenceSession
   \<and> \<not> isTextSubset (lastOcrTextRef referenceSession) (observedText similarEnv)
   \<and> \<not> isTextSubset (observedText similarEnv) (lastOcrTextRef referenceSession)
   \<and> calculateTextSimilarity (observedText similarEnv) (lastOcrTextRef referenceSession) = 3 / 4
   \<and> ocrStabilityCounterRef
        (fst (runAutomationLoop demoSettings True similarEnv referenceSession)) = 0
   \<and> gateTick demoSettings True shortTextEnv referenceSession
   \<and> length (observedText shortTextEnv) = 7
   \<and> ocrStabilityCounterRef
        (fst (runAutomationLoop demoSettings True shortTextEnv referenceSession)) = 0"
proof -
  have sens: "smartScanSensitivity demoSettings = Finite 50"
    by (simp add: demoSettings_def)
  have ref: "lastOcrTextRef referenceSession = referenceText"
    by (simp add: referenceSession_def demoSession_def)
  have g: "gateTick demoSettings True demoEnv referenceSession"
    "gateTick demoSettings True coveredEnv referenceSession"
    "gateTick demoSettings True similarEnv referenceSession"
    "gateTick demoSettings True shortTextEnv referenceSession"
    by (simp_all add: gateTick_def referenceSession_def demoSession_def demoSettings_def
          demoEnv_def coveredEnv_def similarEnv_def shortTextEnv_def)
  have c: "isRawCandidate (Finite 50) referenceText (observedText demoEnv)"
    by (rule candidate_after_reference)
  have n1: "\<not> isRawCandidate (Finite 50) referenceText (observedText coveredEnv)"
    using covered_against_reference by (simp add: isRawCandidate_def)
  have n2: "\<not> isRawCandidate (Finite 50) referenceText (observedText similarEnv)"
    using similar_against_reference
    by (simp add: isRawCandidate_def specThreshold_eq adaptiveThreshold_50)
       (simp add: fl_eval)
  have n3: "\<not> isRawCandidate (Finite 50) referenceText (observedText shortTextEnv)"
    using short_against_reference by (simp add: isRawCandidate_def)
  from hybrid_candidate_criterion
         [where cfg = demoSettings and st = referenceSession and stream = True and e = demoEnv]
       hybrid_candidate_criterion
         [where cfg = demoSettings and st = referenceSession and stream = True
            and e = coveredEnv]
       hybrid_candidate_criterion
         [where cfg = demoSettings and st = referenceSession and stream = True
            and e = similarEnv]
       hybrid_candidate_criterion
         [where cfg = demoSettings and st = referenceSession and stream = True
            and e = shortTextEnv]
       g c n1 n2 n3 question_against_reference(3) covered_against_reference
       similar_against_reference short_against_reference(4) gate_tick(1) [OF g(1)]
  show ?thesis by (simp add: sens ref referenceSession_def demoSession_def)
qed

text \<open>
  Claim C2 as it stands, with the formula read in the arithmetic of the real numbers,
  fails at sensitivity 15. There the exact threshold is \<open>29 / 100\<close>, but the three rounded
  operations of the program yield 0.29000000000000004, the next number above the one
  nearest to \<open>29 / 100\<close>. A text whose similarity to the reference text is exactly
  \<open>29 / 100\<close> is not below the exact threshold, yet the gate counts it as a raw candidate:
  the stability counter goes from 0 to 1.
\<close>

theorem threshold_rounding_counterexample:
  "smartScanSensitivity boundarySettings = Finite 15
   \<and> lastOcrTextRef boundarySession = boundaryReference
   \<and> ocrStabilityCounterRef boundarySession = 0
   \<and> hybridGate boundarySettings boundaryText boundarySession
        = (False, boundarySession\<lparr>ocrStabilityCounterRef := 1\<rparr>, [])
   \<and> ocrStabilityCounterRef
        (fst (runAutomationLoop boundarySettings True boundaryEnv boundarySession)) = 1
   \<and> calculateTextSimilarity (normalizeOcr boundaryText) boundaryReference = 29 / 100
   \<and> exactThreshold 15 = 29 / 100
   \<and> \<not> exactCandidate 15 boundaryReference (normalizeOcr boundaryText)
   \<and> adaptiveThreshold (Finite 15) = Finite (326510972984361 / 2 ^ 50)
   \<and> fl (exactThreshold 15) = Finite (5224175567749775 / 2 ^ 54)"
proof -
  have sens: "smartScanSensitivity boundarySettings = Finite 15"
    by (simp add: boundarySettings_def demoSettings_def)
  have ref: "lastOcrTextRef boundarySession = boundaryReference"
    and zero: "ocrStabilityCounterRef boundarySession = 0"
    by (simp_all add: boundarySession_def demoSession_def)
  have dbg: "\<not> debugMode boundarySettings"
    by (simp add: boundarySettings_def demoSettings_def)
  have gate: "hybridGate boundarySettings boundaryText boundarySession
        = (False, boundarySession\<lparr>ocrStabilityCounterRef := 1\<rparr>, [])"
    using candidate_at_boundary
    by (simp add: hybridGate_eq Let_def normalizeOcr_boundaryText sens ref zero dbg)
  have g: "gateTick boundarySettings True boundaryEnv boundarySession"
    by (simp add: gateTick_def boundarySettings_def demoSettings_def boundaryEnv_def
          demoEnv_def boundarySession_def demoSession_def)
  have tick: "ocrStabilityCounterRef
        (fst (runAutomationLoop boundarySettings True boundaryEnv boundarySession)) = 1"
    using gate_tick(1) [OF g] candidate_at_boundary
    by (simp add: sens ref zero observedText_boundaryEnv)
  have ex: "exactThreshold 15 = 29 / 100"
    by (simp add: exactThreshold_def)
  have nex: "\<not> exactCandidate 15 boundaryReference (normalizeOcr boundaryText)"
    by (simp add: exactCandidate_def ex normalizeOcr_boundaryText similarity_boundary)
  have near: "fl (exactThreshold 15) = Finite (5224175567749775 / 2 ^ 54)"
    unfolding ex by (simp add: fl_eval)
  from sens ref zero gate tick ex nex near adaptiveThreshold_15 similarity_boundary
  show ?thesis by (simp add: normalizeOcr_boundaryText)
qed


text \<open>
  Claim C1, amended. The stability counter is touched only by a hybrid tick that is
  evaluated: the loop is running, no analysis is in flight and a frame is captured. Such a
  tick increments the counter if it is a raw candidate, and when the counter thereby
  reaches 3 the tick escalates to the ChangeOracle once, resets the counter to 0 and
  takes the current text as the reference text; if it is not a candidate it resets the
  counter to 0 and does not escalate. Hence a run of \<open>n\<close> evaluated candidate ticks from
  counter 0 escalates \<open>n div 3\<close> times and leaves the counter at \<open>n mod 3\<close>; two evaluated
  candidate ticks followed by an evaluated non-candidate tick never escalate, and three
  evaluated candidate ticks in a row escalate exactly once, at the third. A hybrid tick
  that is not evaluated (the loop is busy or not running, or no frame is captured)
  leaves the counter and the whole session as they are and does not escalate.
\<close>

theorem stability_counter_debounce:
  "(gateTick cfg stream e st \<longrightarrow>
      ocrStabilityCounterRef (fst (runAutomationLoop cfg stream e st)) =
        (if isRawCandidate (smartScanSensitivity cfg) (lastOcrTextRef st) (observedText e)
            \<and> ocrStabilityCounterRef st + 1 < 3
         then ocrStabilityCounterRef st + 1 else 0)
      \<and> escalations (snd (runAutomationLoop cfg stream e st)) =
        (if isRawCandidate (smartScanSensitivity cfg) (lastOcrTextRef st) (observedText e)
            \<and> 3 \<le> ocrStabilityCounterRef st + 1
         then 1 else 0)
      \<and> lastOcrTextRef (fst (runAutomationLoop cfg stream e st)) =
        (if isRawCandidate (smartScanSensitivity cfg) (lastOcrTextRef st) (observedText e)
            \<and> 3 \<le> ocrStabilityCounterRef st + 1
         then observedText e else lastOcrTextRef st))
   \<and> (candidateRun cfg stream es st \<and> ocrStabilityCounterRef st = 0 \<longrightarrow>
        escalations (snd (runTicks cfg stream es st)) = length es div 3
        \<and> ocrStabilityCounterRef (fst (runTicks cfg stream es st)) = length es mod 3)
   \<and> (candidateRun cfg stream [e1, e2] st \<and> ocrStabilityCounterRef st = 0
        \<and> gateTick cfg stream e3 (fst (runTicks cfg stream [e1, e2] st))
        \<and> \<not> isRawCandidate (smartScanSensitivity cfg)
              (lastOcrTextRef (fst (runTicks cfg stream [e1, e2] st))) (observedText e3) \<longrightarrow>
        escalations (snd (runTicks cfg stream [e1, e2, e3] st)) = 0
        \<and> ocrStabilityCounterRef (fst (runTicks cfg stream [e1, e2, e3] st)) = 0)
   \<and> (candidateRun cfg stream [e1, e2, e3] st \<and> ocrStabilityCounterRef st = 0 \<longrightarrow>
        escalations (snd (runTicks cfg stream [e1, e2] st)) = 0
        \<and> escalations (snd (runTicks cfg stream [e1, e2, e3] st)) = 1
        \<and> ocrStabilityCounterRef (fst (runTicks cfg stream [e1, e2, e3] st)) = 0
        \<and> lastOcrTextRef (fst (runTicks cfg stream [e1, e2, e3] st)) = observedText e3)
   \<and> (\<not> triggerTime cfg \<and> triggerSmart cfg \<and> triggerHybrid cfg
        \<and> \<not> gateTick cfg stream e st \<longrightarrow>
        fst (runAutomationLoop cfg stream e st) = st
        \<and> escalations (snd (runAutomationLoop cfg stream e st)) = 0)"
proof (intro conjI impI)
  assume g: "gateTick cfg stream e st"
  from gate_tick(1) [OF g]
  show "ocrStabilityCounterRef (fst (runAutomationLoop cfg stream e st)) =
        (if isRawCandidate (smartScanSensitivity cfg) (lastOcrTextRef st) (observedText e)
            \<and> ocrStabilityCounterRef st + 1 < 3
         then ocrStabilityCounterRef st + 1 else 0)" .
  from gate_tick(2) [OF g]
  show "escalations (snd (runAutomationLoop cfg stream e st)) =
        (if isRawCandidate (smartScanSensitivity cfg) (lastOcrTextRef st) (observedText e)
            \<and> 3 \<le> ocrStabilityCounterRef st + 1
         then 1 else 0)" .
  from gate_tick(3) [OF g]
  show "lastOcrTextRef (fst (runAutomationLoop cfg stream e st)) =
        (if isRawCandidate (smartScanSensitivity cfg) (lastOcrTextRef st) (observedText e)
            \<and> 3 \<le> ocrStabilityCounterRef st + 1
         then observedText e else lastOcrTextRef st)" .
next
  assume a: "candidateRun cfg stream es st \<and> ocrStabilityCounterRef st = 0"
  then have "ocrStabilityCounterRef st < 3" by simp
  from candidateRun_counts [OF _ this, of cfg stream es] a
  show "escalations (snd (runTicks cfg stream es st)) = length es div 3"
    and "ocrStabilityCounterRef (fst (runTicks cfg stream es st)) = length es mod 3"
    by simp_all
next
  assume a: "candidateRun cfg stream [e1, e2] st \<and> ocrStabilityCounterRef st = 0
        \<and> gateTick cfg stream e3 (fst (runTicks cfg stream [e1, e2] st))
        \<and> \<not> isRawCandidate (smartScanSensitivity cfg)
              (lastOcrTextRef (fst (runTicks cfg stream [e1, e2] st))) (observedText e3)"
  let ?st2 = "fst (runTicks cfg stream [e1, e2] st)"
  from a have "ocrStabilityCounterRef st < 3" by simp
  from candidateRun_counts [OF _ this, of cfg stream "[e1, e2]"] a
  have two: "escalations (snd (runTicks cfg stream [e1, e2] st)) = 0" by simp
  from a have g3: "gateTick cfg stream e3 ?st2"
    and n3: "\<not> isRawCandidate (smartScanSensitivity cfg) (lastOcrTextRef ?st2) (observedText e3)"
    by simp_all
  have s: "fst (runTicks cfg stream [e1, e2, e3] st) = fst (runAutomationLoop cfg stream e3 ?st2)"
    by (simp add: runTicks_fst)
  have ev: "escalations (snd (runTicks cfg stream [e1, e2, e3] st)) =
              escalations (snd (runTicks cfg stream [e1, e2] st))
              + escalations (snd (runAutomationLoop cfg stream e3 ?st2))"
    by (simp add: runTicks_fst runTicks_escalations)
  show "escalations (snd (runTicks cfg stream [e1, e2, e3] st)) = 0"
    using gate_tick(2) [OF g3] n3 two by (simp add: ev)
  show "ocrStabilityCounterRef (fst (runTicks cfg stream [e1, e2, e3] st)) = 0"
    using gate_tick(1) [OF g3] n3 by (simp add: s)
next
  assume a: "candidateRun cfg stream [e1, e2, e3] st \<and> ocrStabilityCounterRef st = 0"
  then have lt: "ocrStabilityCounterRef st < 3" by simp
  from a have r2: "candidateRun cfg stream [e1, e2] st" by simp
  from candidateRun_counts [OF r2 lt] a
  show "escalations (snd (runTicks cfg stream [e1, e2] st)) = 0" by simp
  from candidateRun_counts [OF _ lt, of cfg stream "[e1, e2, e3]"] a
  show "escalations (snd (runTicks cfg stream [e1, e2, e3] st)) = 1"
    and "ocrStabilityCounterRef (fst (runTicks cfg stream [e1, e2, e3] st)) = 0"
    by simp_all
  let ?st2 = "fst (runTicks cfg stream [e1, e2] st)"
  from candidateRun_counts [OF r2 lt] a have c2: "ocrStabilityCounterRef ?st2 = 2" by simp
  from a have g3: "gateTick cfg stream e3 ?st2"
    and c3: "isRawCandidate (smartScanSensitivity cfg) (lastOcrTextRef ?st2) (observedText e3)"
    by (simp_all add: runTicks_fst)
  have s: "fst (runTicks cfg stream [e1, e2, e3] st) = fst (runAutomationLoop cfg stream e3 ?st2)"
    by (simp add: runTicks_fst)
  show "lastOcrTextRef (fst (runTicks cfg stream [e1, e2, e3] st)) = observedText e3"
    using gate_tick(3) [OF g3] c3 c2 by (simp add: s)
next
  assume a: "\<not> triggerTime cfg \<and> triggerSmart cfg \<and> triggerHybrid cfg
        \<and> \<not> gateTick cfg stream e st"
  then show "fst (runAutomationLoop cfg stream e st) = st"
    and "escalations (snd (runAutomationLoop cfg stream e st)) = 0"
    by (auto simp: gateTick_def runAutomationLoop_def tickWork_def split: option.splits)
qed


theorem stability_counter_debounce_witness:
  "candidateRun demoSettings True [demoEnv, demoEnv, demoEnv] referenceSession
   \<and> escalations (snd (runTicks demoSettings True [demoEnv, demoEnv] referenceSession)) = 0
   \<and> escalations (snd (runTicks demoSettings True [demoEnv, demoEnv, demoEnv] referenceSession)) = 1
   \<and> ocrStabilityCounterRef
        (fst (runTicks demoSettings True [demoEnv, demoEnv, demoEnv] referenceSession)) = 0
   \<and> lastOcrTextRef
        (fst (runTicks demoSettings True [demoEnv, demoEnv, demoEnv] referenceSession))
        = observedText demoEnv
   \<and> escalations
        (snd (runTicks demoSettings True [demoEnv, demoEnv, shortTextEnv] referenceSession)) = 0
   \<and> ocrStabilityCounterRef
        (fst (runTicks demoSettings True [demoEnv, demoEnv, shortTextEnv] referenceSession)) = 0
   \<and> \<not> gateTick demoSettings True pausedEnv referenceSession
   \<and> fst (runAutomationLoop demoSettings True pausedEnv referenceSession) = referenceSession
   \<and> escalations (snd (runAutomationLoop demoSettings True pausedEnv referenceSession)) = 0"
proof -
  have sens: "smartScanSensitivity demoSettings = Finite 50" by (simp add: demoSettings_def)
  have mode: "\<not> triggerTime demoSettings" "triggerSmart demoSettings" "triggerHybrid demoSettings"
    by (simp_all add: demoSettings_def)
  have g: "gateTick demoSettings True demoEnv (referenceSession\<lparr>ocrStabilityCounterRef := n\<rparr>)" for n
    by (simp add: gateTick_def referenceSession_def demoSession_def demoSettings_def demoEnv_def)
  have gs: "gateTick demoSettings True shortTextEnv (referenceSession\<lparr>ocrStabilityCounterRef := n\<rparr>)" for n
    by (simp add: gateTick_def referenceSession_def demoSession_def demoSettings_def
          shortTextEnv_def demoEnv_def)
  have ng: "\<not> gateTick demoSettings True pausedEnv referenceSession"
    by (simp add: gateTick_def pausedEnv_def)
  have c: "isRawCandidate (smartScanSensitivity demoSettings)
             (lastOcrTextRef (referenceSession\<lparr>ocrStabilityCounterRef := n\<rparr>))
             (observedText demoEnv)" for n
    using candidate_after_reference by (simp add: sens referenceSession_def demoSession_def)
  have nc: "\<not> isRawCandidate (smartScanSensitivity demoSettings)
             (lastOcrTextRef (referenceSession\<lparr>ocrStabilityCounterRef := n\<rparr>))
             (observedText shortTextEnv)" for n
    using short_against_reference(4) by (simp add: isRawCandidate_def)
  have d0: "referenceSession\<lparr>ocrStabilityCounterRef := 0\<rparr> = referenceSession"
    by (simp add: referenceSession_def demoSession_def)
  have z: "ocrStabilityCounterRef referenceSession = 0"
    by (simp add: referenceSession_def demoSession_def)
  have t1: "fst (runAutomationLoop demoSettings True demoEnv referenceSession)
              = referenceSession\<lparr>ocrStabilityCounterRef := Suc 0\<rparr>"
    using gate_tick(4) [OF g [of 0]] c [of 0] z by (simp add: d0)
  have t2: "fst (runAutomationLoop demoSettings True demoEnv
                   (referenceSession\<lparr>ocrStabilityCounterRef := Suc 0\<rparr>))
              = referenceSession\<lparr>ocrStabilityCounterRef := 2\<rparr>"
    using gate_tick(4) [OF g [of "Suc 0"]] c [of "Suc 0"] by simp
  have run3: "candidateRun demoSettings True [demoEnv, demoEnv, demoEnv] referenceSession"
    using g [of 0] g [of "Suc 0"] g [of 2] c [of 0] c [of "Suc 0"] c [of 2]
    by (simp add: t1 t2 d0)
  then have run2: "candidateRun demoSettings True [demoEnv, demoEnv] referenceSession"
    by simp
  have s2: "fst (runTicks demoSettings True [demoEnv, demoEnv] referenceSession)
              = referenceSession\<lparr>ocrStabilityCounterRef := 2\<rparr>"
    by (simp add: runTicks_fst t1 t2)
  from stability_counter_debounce [of demoSettings True demoEnv referenceSession
         "[demoEnv, demoEnv, demoEnv]" demoEnv demoEnv demoEnv]
       stability_counter_debounce [of demoSettings True pausedEnv referenceSession
         "[demoEnv, demoEnv, demoEnv]" demoEnv demoEnv shortTextEnv]
       run3 run2 z gs [of 2] nc [of 2] ng mode
  show ?thesis by (simp add: s2)
qed

text \<open>
  Claim C1 as it stands fails on a tick that captures no frame. Two candidate ticks bring
  the counter to 2; during the third tick the video is paused, so the tick reads no
  text and is not a raw candidate, yet the counter is not reset; the fourth tick is a
  candidate again and escalates, although no three consecutive ticks were candidates.
\<close>

theorem interrupted_candidates_counterexample:
  "captured pausedEnv = None
   \<and> \<not> isRawCandidate (smartScanSensitivity demoSettings) (lastOcrTextRef referenceSession)
         (observedText pausedEnv)
   \<and> ocrStabilityCounterRef
        (fst (runTicks demoSettings True [demoEnv, demoEnv] referenceSession)) = 2
   \<and> ocrStabilityCounterRef
        (fst (runTicks demoSettings True [demoEnv, demoEnv, pausedEnv] referenceSession)) = 2
   \<and> escalations
        (snd (runTicks demoSettings True [demoEnv, demoEnv, pausedEnv] referenceSession)) = 0
   \<and> escalations
        (snd (runTicks demoSettings True [demoEnv, demoEnv, pausedEnv, demoEnv]
                referenceSession)) = 1"
proof -
  have sens: "smartScanSensitivity demoSettings = Finite 50" by (simp add: demoSettings_def)
  have g: "gateTick demoSettings True demoEnv (referenceSession\<lparr>ocrStabilityCounterRef := n\<rparr>)" for n
    by (simp add: gateTick_def referenceSession_def demoSession_def demoSettings_def demoEnv_def)
  have c: "isRawCandidate (smartScanSensitivity demoSettings)
             (lastOcrTextRef (referenceSession\<lparr>ocrStabilityCounterRef := n\<rparr>))
             (observedText demoEnv)" for n
    using candidate_after_reference by (simp add: sens referenceSession_def demoSession_def)
  have d0: "referenceSession\<lparr>ocrStabilityCounterRef := 0\<rparr> = referenceSession"
    by (simp add: referenceSession_def demoSession_def)
  have z: "ocrStabilityCounterRef referenceSession = 0"
    by (simp add: referenceSession_def demoSession_def)
  have t1: "fst (runAutomationLoop demoSettings True demoEnv referenceSession)
              = referenceSession\<lparr>ocrStabilityCounterRef := Suc 0\<rparr>"
    using gate_tick(4) [OF g [of 0]] c [of 0] z by (simp add: d0)
  have e1: "escalations (snd (runAutomationLoop demoSettings True demoEnv referenceSession)) = 0"
    using gate_tick(2) [OF g [of 0]] z by (simp add: d0)
  have t2: "fst (runAutomationLoop demoSettings True demoEnv
                   (referenceSession\<lparr>ocrStabilityCounterRef := Suc 0\<rparr>))
              = referenceSession\<lparr>ocrStabilityCounterRef := 2\<rparr>"
    using gate_tick(4) [OF g [of "Suc 0"]] c [of "Suc 0"] by simp
  have e2: "escalations (snd (runAutomationLoop demoSettings True demoEnv
                   (referenceSession\<lparr>ocrStabilityCounterRef := Suc 0\<rparr>))) = 0"
    using gate_tick(2) [OF g [of "Suc 0"]] by simp
  have t3: "runAutomationLoop demoSettings True pausedEnv
              (referenceSession\<lparr>ocrStabilityCounterRef := 2\<rparr>)
              = (referenceSession\<lparr>ocrStabilityCounterRef := 2\<rparr>, [CaptureFrame, SetTimeout 1000])"
    by (simp add: runAutomationLoop_def tickWork_def pausedEnv_def demoSettings_def
          referenceSession_def demoSession_def)
  have e4: "escalations (snd (runAutomationLoop demoSettings True demoEnv
                   (referenceSession\<lparr>ocrStabilityCounterRef := 2\<rparr>))) = 1"
    using gate_tick(2) [OF g [of 2]] c [of 2] by simp
  have np: "\<not> isRawCandidate (smartScanSensitivity demoSettings)
              (lastOcrTextRef referenceSession) (observedText pausedEnv)"
    by (simp add: isRawCandidate_def observedText_pausedEnv)
  have cap: "captured pausedEnv = None"
    by (simp add: pausedEnv_def)
  from cap np show ?thesis
    by (simp add: runTicks_fst runTicks_escalations t1 t2 t3 e1 e2 e4)
qed


section \<open>Switching the automation off during a remote call\<close>

lemma tryAttempt_noStop: "tryAttempt (noStop e) m k = tryAttempt e m k"
  by (simp add: tryAttempt_def noStop_def Let_def split: genOutcome.splits option.splits)

lemma attemptLoop_noStop: "attemptLoop (noStop e) progress m k = attemptLoop e progress m k"
proof (induction "3 - k" arbitrary: m k progress)
  case 0
  then show ?case
    by (simp add: attemptLoop.simps [of "noStop e" progress m k] attemptLoop.simps [of e progress m k])
next
  case (Suc n)
  from Suc.hyps(2) have n: "n = 3 - Suc k" by simp
  note IH = Suc.hyps(1) [OF n]
  show ?case
    unfolding attemptLoop.simps [of "noStop e" progress m k] attemptLoop.simps [of e progress m k]
    by (simp add: tryAttempt_noStop IH Let_def split: sum.splits)
qed

lemma analyzeScreenFrame_noStop:
  "analyzeScreenFrame (noStop e) name progress ctx = analyzeScreenFrame e name progress ctx"
  by (simp add: analyzeScreenFrame_def attemptLoop_noStop split: option.splits)

lemma autoPilotLoop_noStop: "autoPilotLoop (noStop e) opt tried v = autoPilotLoop e opt tried v"
proof (induction "5 - tried" arbitrary: tried v)
  case 0
  then show ?case by (simp add: autoPilotLoop_done)
next
  case (Suc n)
  from Suc.hyps(2) have n: "n = 5 - Suc tried" by simp
  note IH = Suc.hyps(1) [OF n]
  have env: "verifyCapture (noStop e) = verifyCapture e" "verifyReply (noStop e) = verifyReply e"
    by (simp_all add: noStop_def)
  show ?case
    unfolding autoPilotLoop.simps [of "noStop e" opt tried v] autoPilotLoop.simps [of e opt tried v]
    by (simp add: env IH Let_def split: option.splits)
qed

lemma autoSelectArm_noStop: "autoSelectArm cfg (noStop e) result = autoSelectArm cfg e result"
  by (simp add: autoSelectArm_def handleAutoPilot_def autoPilotLoop_noStop split: option.splits)


lemma noStop_flags: "stopDuringOracle (noStop e) = False" "stopDuringAnalysis (noStop e) = False"
  "captured (noStop e) = captured e" "recognized (noStop e) = recognized e"
  "oracleAnswer (noStop e) = oracleAnswer e"
  by (simp_all add: noStop_def)

lemma agree_update:
  "agreeButRunning st st' \<Longrightarrow>
   st\<lparr>isAutomationRunningRef := b\<rparr> = st'\<lparr>isAutomationRunningRef := b\<rparr>"
  by (cases st; cases st') (simp add: agreeButRunning_def)

lemma agree_refl: "agreeButRunning st st"
  by (simp add: agreeButRunning_def)

lemma reportResult_agree:
  "agreeButRunning st st' \<Longrightarrow>
   agreeButRunning (fst (reportResult cfg img result st)) (fst (reportResult cfg img result st'))
   \<and> snd (reportResult cfg img result st) = snd (reportResult cfg img result st')"
  by (simp add: reportResult_def agreeButRunning_def Let_def)

lemma reportResult_running:
  "isAutomationRunningRef (fst (reportResult cfg img result st)) = isAutomationRunningRef st"
  by (simp add: reportResult_def Let_def)

lemma performAnalysis_agree:
  assumes a: "agreeButRunning st st'"
  shows "agreeButRunning (fst (performAnalysis cfg (noStop e) img flash st))
           (fst (performAnalysis cfg e img flash st'))
         \<and> snd (performAnalysis cfg (noStop e) img flash st)
             = snd (performAnalysis cfg e img flash st')"
proof (cases "truthy (apiKey cfg)")
  case False
  with a show ?thesis by (simp add: performAnalysis_def agreeButRunning_def)
next
  case True
  obtain result genEvents where r:
    "analyzeScreenFrame e (modelName cfg) (debugMode cfg) (externalContext cfg) = (result, genEvents)"
    by (cases "analyzeScreenFrame e (modelName cfg) (debugMode cfg) (externalContext cfg)")
  then have r': "analyzeScreenFrame (noStop e) (modelName cfg) (debugMode cfg) (externalContext cfg)
                   = (result, genEvents)"
    by (simp add: analyzeScreenFrame_noStop)
  let ?a = "st\<lparr>processingRef := True\<rparr>"
  let ?b = "if stopDuringAnalysis e then stopAutomation (st'\<lparr>processingRef := True\<rparr>)
            else st'\<lparr>processingRef := True\<rparr>"
  from a have ab: "agreeButRunning ?a ?b"
    by (simp add: agreeButRunning_def stopAutomation_def)
  from reportResult_agree [OF ab, of cfg img result]
  have rr: "agreeButRunning (fst (reportResult cfg img result ?a)) (fst (reportResult cfg img result ?b))"
    and re: "snd (reportResult cfg img result ?a) = snd (reportResult cfg img result ?b)"
    by simp_all
  have 1: "agreeButRunning (fst (performAnalysis cfg (noStop e) img flash st))
           (fst (performAnalysis cfg e img flash st'))"
    using rr
    by (simp add: performAnalysis_state [OF True r] performAnalysis_state [OF True r']
          noStop_flags agreeButRunning_def)
  have 2: "snd (performAnalysis cfg (noStop e) img flash st)
             = snd (performAnalysis cfg e img flash st')"
    using re
    by (simp add: performAnalysis_events [OF True r] performAnalysis_events [OF True r']
          noStop_flags autoSelectArm_noStop)
  from 1 2 show ?thesis by simp
qed

lemma performAnalysis_running:
  "isAutomationRunningRef (fst (performAnalysis cfg (noStop e) img flash st))
     = isAutomationRunningRef st"
proof (cases "truthy (apiKey cfg)")
  case False
  then show ?thesis by (simp add: performAnalysis_def)
next
  case True
  obtain result genEvents where r:
    "analyzeScreenFrame (noStop e) (modelName cfg) (debugMode cfg) (externalContext cfg)
       = (result, genEvents)"
    by (cases "analyzeScreenFrame (noStop e) (modelName cfg) (debugMode cfg) (externalContext cfg)")
  show ?thesis
    by (simp add: performAnalysis_state [OF True r] noStop_flags reportResult_running)
qed

lemma checkAI_agree:
  "agreeButRunning (fst (checkAI cfg (noStop e) img st)) (fst (checkAI cfg e img st))
   \<and> snd (checkAI cfg (noStop e) img st) = snd (checkAI cfg e img st)"
proof -
  define s1 where "s1 = (if stopDuringOracle e then stopAutomation st else st)"
  define n3 where "n3 = (if \<not> triggerHybrid cfg
                         then st\<lparr>lastScreenshotRef := Some img,
                                  lastOcrTextRef := currentText (oracleAnswer e)\<rparr>
                         else st\<lparr>lastScreenshotRef := Some img\<rparr>)"
  define e3 where "e3 = (if \<not> triggerHybrid cfg
                         then s1\<lparr>lastScreenshotRef := Some img,
                                  lastOcrTextRef := currentText (oracleAnswer e)\<rparr>
                         else s1\<lparr>lastScreenshotRef := Some img\<rparr>)"
  have a1: "agreeButRunning st s1"
    by (simp add: s1_def agreeButRunning_def stopAutomation_def)
  then have a3: "agreeButRunning n3 e3"
    by (simp add: n3_def e3_def agreeButRunning_def)
  note pa = performAnalysis_agree [OF a3, of cfg e img False]
  have n: "checkAI cfg (noStop e) img st =
             (if truthy (oracleError (oracleAnswer e)) then
                (st, [CheckForNewQuestion img (lastScreenshotRef st),
                      AddLog (WatchdogError (the (oracleError (oracleAnswer e))))])
              else if isNew (oracleAnswer e) then
                (fst (performAnalysis cfg (noStop e) img False n3),
                 [CheckForNewQuestion img (lastScreenshotRef st), AddLog WatchdogNewQuestion]
                 @ snd (performAnalysis cfg (noStop e) img False n3))
              else (st, [CheckForNewQuestion img (lastScreenshotRef st)]))"
    by (simp add: checkAI_def Let_def case_prod_unfold noStop_flags n3_def)
  have e: "checkAI cfg e img st =
             (if truthy (oracleError (oracleAnswer e)) then
                (s1, [CheckForNewQuestion img (lastScreenshotRef st),
                      AddLog (WatchdogError (the (oracleError (oracleAnswer e))))])
              else if isNew (oracleAnswer e) then
                (fst (performAnalysis cfg e img False e3),
                 [CheckForNewQuestion img (lastScreenshotRef st), AddLog WatchdogNewQuestion]
                 @ snd (performAnalysis cfg e img False e3))
              else (s1, [CheckForNewQuestion img (lastScreenshotRef st)]))"
    by (simp add: checkAI_def Let_def case_prod_unfold s1_def e3_def)
  show ?thesis
    unfolding n e using a1 pa by simp
qed

lemma checkAI_running:
  "isAutomationRunningRef (fst (checkAI cfg (noStop e) img st)) = isAutomationRunningRef st"
  by (simp add: checkAI_def Let_def case_prod_unfold noStop_flags performAnalysis_running)

lemma hybridGate_running:
  "isAutomationRunningRef (fst (snd (hybridGate cfg t st))) = isAutomationRunningRef st"
  by (simp add: hybridGate_eq Let_def)

lemma tickWork_agree:
  "fst (tickWork cfg (noStop e) st) = fst (tickWork cfg e st)
   \<and> agreeButRunning (fst (snd (tickWork cfg (noStop e) st))) (fst (snd (tickWork cfg e st)))
   \<and> snd (snd (tickWork cfg (noStop e) st)) = snd (snd (tickWork cfg e st))"
  using performAnalysis_agree [OF agree_refl, of cfg e _ False st] checkAI_agree [of cfg e]
  by (simp add: tickWork_def Let_def case_prod_unfold noStop_flags agree_refl
      split: option.splits)

lemma tickWork_running:
  "isAutomationRunningRef (fst (snd (tickWork cfg (noStop e) st))) = isAutomationRunningRef st"
  by (simp add: tickWork_def Let_def case_prod_unfold noStop_flags performAnalysis_running
        checkAI_running hybridGate_running split: option.splits)

lemma tickWork_delay: "fst (tickWork cfg e st) = nextDelay cfg"
  by (simp add: tickWork_def nextDelay_def Let_def case_prod_unfold split: option.splits)

text \<open>
  Claim C6, amended. When the automation is switched off while the ChangeOracle check or
  the analysis of a tick is in flight, the call completes and its result is applied
  exactly as if the automation were still running: the session after the tick differs
  from the one of the undisturbed tick only in \<open>isAutomationRunningRef\<close>, and the events
  are the same except that no timer for a next tick is set.
\<close>

theorem stop_only_cancels_next_tick:
  assumes "isAutomationRunningRef st" and "stream"
  shows "(fst (runAutomationLoop cfg stream e st))\<lparr>isAutomationRunningRef := True\<rparr>
           = fst (runAutomationLoop cfg stream (noStop e) st)
    \<and> snd (runAutomationLoop cfg stream (noStop e) st) =
          (if isAutomationRunningRef (fst (runAutomationLoop cfg stream e st))
           then snd (runAutomationLoop cfg stream e st)
           else snd (runAutomationLoop cfg stream e st) @ [SetTimeout (nextDelay cfg)])"
proof -
  let ?n = "fst (snd (tickWork cfg (noStop e) st))"
  let ?s = "fst (snd (tickWork cfg e st))"
  from tickWork_agree [of cfg e st]
  have ag: "agreeButRunning ?n ?s"
    and ev: "snd (snd (tickWork cfg (noStop e) st)) = snd (snd (tickWork cfg e st))"
    by simp_all
  have rn: "isAutomationRunningRef ?n" using assms(1) by (simp add: tickWork_running)
  have "?n\<lparr>isAutomationRunningRef := True\<rparr> = ?n"
    using rn by (cases ?n) simp
  with agree_update [OF ag, of True]
  have st: "?s\<lparr>isAutomationRunningRef := True\<rparr> = ?n" by simp
  have n: "runAutomationLoop cfg stream (noStop e) st =
             (?n, snd (snd (tickWork cfg e st)) @ [SetTimeout (nextDelay cfg)])"
    using assms rn by (simp add: runAutomationLoop_def case_prod_unfold Let_def ev tickWork_delay)
  have s: "runAutomationLoop cfg stream e st =
             (?s, if isAutomationRunningRef ?s
                  then snd (snd (tickWork cfg e st)) @ [SetTimeout (nextDelay cfg)]
                  else snd (snd (tickWork cfg e st)))"
    using assms by (simp add: runAutomationLoop_def case_prod_unfold Let_def tickWork_delay)
  show ?thesis
    unfolding n s using st by simp
qed

lemmas demo_defs2 = demo_defs busySession_def shortTextEnv_def smartSettings_def stoppedEnv_def

lemmas tick_eval =
  runAutomationLoop_def tickWork_def checkAI_def performAnalysis_def reportResult_def
  autoSelectArm_def handleAutoPilot_def autoPilotLoop.simps stopAutomation_def truthy_def
  selectSequence_def nextSequence_def analyzer_eval

text \<open>
  Claim C6, as the specification states it, fails: with the automation switched off
  during the ChangeOracle check, the tick still takes the frame as the new reference,
  stores the oracle's text and the analysis result, calls the analyzer and dispatches
  the selection and next-button sequences.
\<close>

theorem stopped_call_is_applied_counterexample:
  "stopDuringOracle stoppedEnv \<and> isAutomationRunningRef demoSession
   \<and> \<not> isAutomationRunningRef (fst (runAutomationLoop smartSettings True stoppedEnv demoSession))
   \<and> lastScreenshotRef demoSession = None
   \<and> lastScreenshotRef (fst (runAutomationLoop smartSettings True stoppedEnv demoSession))
       = Some frameA
   \<and> lastOcrTextRef (fst (runAutomationLoop smartSettings True stoppedEnv demoSession)) = ''2+2=?''
   \<and> lastResult (fst (runAutomationLoop smartSettings True stoppedEnv demoSession)) \<noteq> None
   \<and> analyzerCalls (snd (runAutomationLoop smartSettings True stoppedEnv demoSession)) = 1
   \<and> length (dispatches (snd (runAutomationLoop smartSettings True stoppedEnv demoSession))) = 4"
  by (simp add: tick_eval demo_defs2)

theorem stop_only_cancels_next_tick_witness:
  "isAutomationRunningRef demoSession
   \<and> \<not> isAutomationRunningRef (fst (runAutomationLoop smartSettings True stoppedEnv demoSession))
   \<and> (fst (runAutomationLoop smartSettings True stoppedEnv demoSession))
        \<lparr>isAutomationRunningRef := True\<rparr>
       = fst (runAutomationLoop smartSettings True (noStop stoppedEnv) demoSession)
   \<and> snd (runAutomationLoop smartSettings True (noStop stoppedEnv) demoSession)
       = snd (runAutomationLoop smartSettings True stoppedEnv demoSession) @ [SetTimeout 1000]"
proof -
  have r: "isAutomationRunningRef demoSession" by (simp add: demoSession_def)
  have s: "\<not> isAutomationRunningRef (fst (runAutomationLoop smartSettings True stoppedEnv demoSession))"
    by (simp add: tick_eval demo_defs2)
  have d: "nextDelay smartSettings = 1000"
    by (simp add: nextDelay_def smartSettings_def demoSettings_def)
  from stop_only_cancels_next_tick [OF r, of True smartSettings stoppedEnv] r s d
  show ?thesis by simp
qed

end
